theory Spec2Isabelle
  imports Main "HOL-Library.Sublist"
begin

section \<open>Strings of the pipeline\<close>

text \<open>
  A JavaScript string is the list of its UTF-16 code units, a code unit being a number
  from 0 to 65535, and \<open>length\<close> is the \<open>length\<close> of the source. A literal of the
  source that is ASCII is written \<open>lit ''...''\<close>. The functions are defined on every
  list of integers, so what holds for every list holds for every string.
\<close>

type_synonym code_unit = int

type_synonym jstring = "code_unit list"

definition u16 :: "char \<Rightarrow> code_unit" where
  "u16 c = of_char c"

definition lit :: "string \<Rightarrow> jstring" where
  "lit s = map u16 s"

text \<open>
  White space as \<open>\s\<close> and \<open>trim\<close> see it: the characters \<open>WhiteSpace\<close> and
  \<open>LineTerminator\<close> of the language, that is tab, line feed, vertical tab, form feed,
  carriage return, space, no-break space, U+1680, U+2000 to U+200A, the line and the
  paragraph separator, U+202F, U+205F, U+3000 and U+FEFF.
\<close>

definition is_space :: "code_unit \<Rightarrow> bool" where
  "is_space c =
     (c = 0x09 \<or> c = 0x0A \<or> c = 0x0B \<or> c = 0x0C \<or> c = 0x0D \<or> c = 0x20 \<or> c = 0xA0 \<or>
      c = 0x1680 \<or> (0x2000 \<le> c \<and> c \<le> 0x200A) \<or> c = 0x2028 \<or> c = 0x2029 \<or>
      c = 0x202F \<or> c = 0x205F \<or> c = 0x3000 \<or> c = 0xFEFF)"

text \<open>The line terminators, which \<open>.\<close> does not match.\<close>

definition is_line_terminator :: "code_unit \<Rightarrow> bool" where
  "is_line_terminator c = (c = 0x0A \<or> c = 0x0D \<or> c = 0x2028 \<or> c = 0x2029)"

definition is_upper :: "code_unit \<Rightarrow> bool" where
  "is_upper c = (0x41 \<le> c \<and> c \<le> 0x5A)"

definition is_lower :: "code_unit \<Rightarrow> bool" where
  "is_lower c = (0x61 \<le> c \<and> c \<le> 0x7A)"

definition is_digit :: "code_unit \<Rightarrow> bool" where
  "is_digit c = (0x30 \<le> c \<and> c \<le> 0x39)"

text \<open>The class \<open>\w\<close> of a regular expression without the flags \<open>i\<close> and \<open>u\<close>.\<close>

definition is_word_char :: "code_unit \<Rightarrow> bool" where
  "is_word_char c = (is_upper c \<or> is_lower c \<or> is_digit c \<or> c = 0x5F)"

subsection \<open>Case conversion\<close>

text \<open>
  \<open>toLowerCase\<close> and \<open>toUpperCase\<close> are functions of the language, defined by the
  Unicode case mappings. They are parameters of the model: every function that calls one
  of them takes the runtime \<open>rt\<close> that provides both. \<open>toUpperCase\<close> is called on the
  one-unit string \<open>word.charAt(0)\<close>, and may return several units.
\<close>

record runtime =
  toLowerCase :: "jstring \<Rightarrow> jstring"
  toUpperCase :: "jstring \<Rightarrow> jstring"

definition ascii_lower :: "code_unit \<Rightarrow> code_unit" where
  "ascii_lower c = (if is_upper c then c + 32 else c)"

definition ascii_upper :: "code_unit \<Rightarrow> code_unit" where
  "ascii_upper c = (if is_lower c then c - 32 else c)"

definition is_ascii :: "jstring \<Rightarrow> bool" where
  "is_ascii s = list_all (\<lambda>c. c < 128) s"

text \<open>
  Two facts of the language about the two functions, stated as predicates of a runtime. On
  an ASCII string they change the 26 letters, unit by unit (\<open>ascii_conform\<close>).
  \<open>toUpperCase\<close> of a unit that is neither white space nor a question mark is not
  empty and holds no white space and no question mark (\<open>upper_keeps_clean\<close>): the
  Unicode case mappings map letters to letters and marks.
\<close>

definition ascii_conform :: "runtime \<Rightarrow> bool" where
  "ascii_conform rt =
     (\<forall>s. is_ascii s \<longrightarrow>
        toLowerCase rt s = map ascii_lower s \<and> toUpperCase rt s = map ascii_upper s)"

definition clean :: "code_unit \<Rightarrow> bool" where
  "clean c = (\<not> is_space c \<and> c \<noteq> u16 CHR ''?'')"

definition upper_keeps_clean :: "runtime \<Rightarrow> bool" where
  "upper_keeps_clean rt =
     (\<forall>c. clean c \<longrightarrow> toUpperCase rt [c] \<noteq> [] \<and> list_all clean (toUpperCase rt [c]))"

text \<open>
  The two functions as they are on ASCII strings, for the evaluation of examples on ASCII
  inputs.
\<close>

definition ascii_runtime :: runtime where
  "ascii_runtime = \<lparr> toLowerCase = map ascii_lower, toUpperCase = map ascii_upper \<rparr>"

subsection \<open>Operations on strings and arrays\<close>

definition trim :: "jstring \<Rightarrow> jstring" where
  "trim s = rev (dropWhile is_space (rev (dropWhile is_space s)))"

text \<open>\<open>s.includes(sub)\<close>: \<open>sub\<close> occurs in \<open>s\<close> as a contiguous piece.\<close>

fun str_includes :: "jstring \<Rightarrow> jstring \<Rightarrow> bool" where
  "str_includes [] sub = (sub = [])"
| "str_includes (c # cs) sub = (prefix sub (c # cs) \<or> str_includes cs sub)"

text \<open>\<open>xs.join(sep)\<close>.\<close>

fun join :: "jstring \<Rightarrow> jstring list \<Rightarrow> jstring" where
  "join sep [] = []"
| "join sep [x] = x"
| "join sep (x # y # ys) = x @ sep @ join sep (y # ys)"

text \<open>
  \<open>s.split(/\s+/)\<close>: the pieces between the maximal runs of white space. A string that
  starts or ends with white space gives an empty first or last piece, and the empty string
  gives one empty piece.
\<close>

function split_ws :: "jstring \<Rightarrow> jstring list" where
  "split_ws [] = [[]]"
| "split_ws (c # cs) =
     (if is_space c then [] # split_ws (dropWhile is_space cs)
      else (case split_ws cs of
              [] \<Rightarrow> [[c]]
            | w # ws \<Rightarrow> (c # w) # ws))"
  by pat_completeness auto
termination
  by (relation "measure length") (auto simp: le_imp_less_Suc length_dropWhile_le)

text \<open>\<open>s.split(/\s+/).filter(Boolean)\<close>: the non-empty pieces.\<close>

definition tokens :: "jstring \<Rightarrow> jstring list" where
  "tokens s = filter (\<lambda>w. w \<noteq> []) (split_ws s)"

text \<open>\<open>s.replace(/[?]/g, '')\<close>.\<close>

definition remove_qmarks :: "jstring \<Rightarrow> jstring" where
  "remove_qmarks s = filter (\<lambda>c. c \<noteq> u16 CHR ''?'') s"

text \<open>\<open>xs.slice(-2)\<close>: the last two elements, or all of a shorter list.\<close>

definition slice_last2 :: "'a list \<Rightarrow> 'a list" where
  "slice_last2 xs = drop (length xs - 2) xs"

section \<open>The research agent: topic extraction\<close>

definition FALLBACK_TOPIC :: jstring where
  "FALLBACK_TOPIC = lit ''General-purpose_AI''"

definition FILLER_WORDS :: "jstring set" where
  "FILLER_WORDS = set (map lit [''explain'', ''what'', ''is'', ''are'', ''for'', ''a'', ''an'',
     ''the'', ''of'', ''in'', ''to'', ''how'', ''do'', ''i'', ''get'', ''started'', ''beginners'',
     ''learn'', ''compare'', ''vs'', ''overview'', ''tell'', ''me'', ''about'', ''please''])"

definition PRICE_WORDS :: "jstring set" where
  "PRICE_WORDS = set (map lit [''cost'', ''price'', ''new'', ''average'', ''car'', ''buy''])"

text \<open>
  \<open>word.charAt(0).toUpperCase() + word.slice(1)\<close>; \<open>charAt(0)\<close> of the empty string is
  the empty string.
\<close>

definition capitalize :: "runtime \<Rightarrow> jstring \<Rightarrow> jstring" where
  "capitalize rt word = toUpperCase rt (take 1 word) @ drop 1 word"

definition normalizeTitle :: "runtime \<Rightarrow> jstring \<Rightarrow> jstring" where
  "normalizeTitle rt phrase =
     join (lit ''_'') (map (capitalize rt) (tokens (remove_qmarks (trim phrase))))"

subsection \<open>The three question patterns\<close>

text \<open>
  The patterns are matched with the flag \<open>i\<close> against the trimmed query, anchored at both
  ends. The matcher below backtracks as the regular expression engine does: every
  alternative and every length of a run \<open>\s+\<close> is tried in the engine's order (longest
  run first), and \<open>(.+)$\<close> takes the rest of the string when it is non-empty and free of
  line terminators. The result is the captured subject, \<open>match[3] || match[2]\<close>.

  Under the flag \<open>i\<close> a unit of the input matches a character of the pattern when both
  have the same canonical form. The patterns consist of ASCII letters and spaces, whose
  canonical form is the upper-case ASCII letter or the space, and the canonical form of a
  unit from 128 on is never below 128: a unit matches a letter of the pattern exactly when
  it is that ASCII letter in either case.
\<close>

fun first_some :: "('a \<Rightarrow> 'b option) \<Rightarrow> 'a list \<Rightarrow> 'b option" where
  "first_some f [] = None"
| "first_some f (x # xs) = (case f x of Some y \<Rightarrow> Some y | None \<Rightarrow> first_some f xs)"

text \<open>A literal matched without regard to case; the result is the rest of the input.\<close>

fun lit_ci :: "jstring \<Rightarrow> jstring \<Rightarrow> jstring option" where
  "lit_ci [] s = Some s"
| "lit_ci (p # ps) [] = None"
| "lit_ci (p # ps) (c # cs) =
     (if ascii_upper p = ascii_upper c then lit_ci ps cs else None)"

text \<open>An alternation of literals: the rest of the input after each alternative that matches.\<close>

definition alt_ci :: "jstring list \<Rightarrow> jstring \<Rightarrow> jstring list" where
  "alt_ci ws s = List.map_filter (\<lambda>w. lit_ci w s) ws"

text \<open>\<open>\s+\<close>: the rest of the input after each possible run, the longest run first.\<close>

definition ws_plus :: "jstring \<Rightarrow> jstring list" where
  "ws_plus s = map (\<lambda>k. drop k s) (rev [1 ..< Suc (length (takeWhile is_space s))])"

text \<open>\<open>(.+)$\<close>.\<close>

definition dot_plus_end :: "jstring \<Rightarrow> jstring option" where
  "dot_plus_end s =
     (if s \<noteq> [] \<and> list_all (\<lambda>c. \<not> is_line_terminator c) s then Some s else None)"

definition pattern_wh :: "jstring \<Rightarrow> jstring option" where
  "pattern_wh s =
     first_some (\<lambda>r1.
       first_some (\<lambda>r2.
         first_some (\<lambda>r3.
           first_some dot_plus_end (ws_plus r3))
           (alt_ci (map lit [''is'', ''was'', ''are'', ''were'']) r2))
         (ws_plus r1))
       (alt_ci (map lit [''who'', ''what'', ''where'', ''when'', ''why'', ''how'']) s)"

definition pattern_tell :: "jstring \<Rightarrow> jstring option" where
  "pattern_tell s =
     first_some (\<lambda>r1. first_some dot_plus_end (ws_plus r1))
       (alt_ci [lit ''tell me about''] s)"

definition pattern_overview :: "jstring \<Rightarrow> jstring option" where
  "pattern_overview s =
     first_some (\<lambda>r1. first_some dot_plus_end (ws_plus r1))
       (alt_ci [lit ''give me an overview of''] s)"

definition patterns :: "(jstring \<Rightarrow> jstring option) list" where
  "patterns = [pattern_wh, pattern_tell, pattern_overview]"

subsection \<open>\<open>extractTopic\<close>\<close>

text \<open>
  The body of the loop for a pattern that matched: question marks removed, the subject
  trimmed, filler and price words dropped, the last two of the remaining tokens kept (the
  subject phrase itself when none remains).
\<close>

definition subject_phrase :: "runtime \<Rightarrow> jstring \<Rightarrow> jstring" where
  "subject_phrase rt rawTopic =
     (let phrase = trim (remove_qmarks rawTopic);
          toks = tokens (toLowerCase rt phrase);
          keyTokens = filter (\<lambda>t. t \<notin> FILLER_WORDS \<and> t \<notin> PRICE_WORDS) toks
      in if keyTokens \<noteq> [] then join (lit '' '') (slice_last2 keyTokens) else phrase)"

text \<open>
  The loop over the patterns: a pattern whose normalized subject has fewer than three
  code units does not return, and the loop goes on to the next pattern.
\<close>

fun try_patterns ::
  "runtime \<Rightarrow> (jstring \<Rightarrow> jstring option) list \<Rightarrow> jstring \<Rightarrow> jstring option" where
  "try_patterns rt [] trimmed = None"
| "try_patterns rt (p # ps) trimmed =
     (case p trimmed of
        None \<Rightarrow> try_patterns rt ps trimmed
      | Some rawTopic \<Rightarrow>
          if rawTopic \<noteq> [] then
            (let normalized = normalizeTitle rt (subject_phrase rt rawTopic)
             in if length normalized \<ge> 3 then Some normalized
                else try_patterns rt ps trimmed)
          else try_patterns rt ps trimmed)"

text \<open>The keyword fallback: the candidate words, after \<open>slice(-2)\<close>.\<close>

definition keyword_candidate :: "jstring \<Rightarrow> jstring list" where
  "keyword_candidate lower =
     (let words = filter (\<lambda>w. w \<notin> FILLER_WORDS)
                    (tokens (filter (\<lambda>c. is_word_char c \<or> is_space c) lower));
          filtered = filter (\<lambda>w. w \<notin> PRICE_WORDS) words;
          candidate = (if filtered \<noteq> [] then filtered else words)
      in if length candidate \<ge> 2 then slice_last2 candidate else candidate)"

text \<open>The keyword fallback and, behind it, the normalized original query.\<close>

definition keyword_fallback :: "runtime \<Rightarrow> jstring \<Rightarrow> jstring \<Rightarrow> jstring" where
  "keyword_fallback rt query lower =
     (let candidate = keyword_candidate lower;
          extracted = join (lit ''_'') candidate
      in if length extracted \<ge> 3 then normalizeTitle rt (join (lit '' '') candidate)
         else normalizeTitle rt query)"

definition extractTopic :: "runtime \<Rightarrow> jstring \<Rightarrow> jstring" where
  "extractTopic rt query =
     (if query = [] then []
      else let trimmed = trim query in
        if trimmed = [] then []
        else (case try_patterns rt patterns trimmed of
                Some normalized \<Rightarrow> normalized
              | None \<Rightarrow> keyword_fallback rt query (toLowerCase rt trimmed)))"

section \<open>Values that may be absent\<close>

text \<open>
  A field of an object may hold a value, hold \<open>null\<close>, or be missing (\<open>undefined\<close>).
\<close>

datatype 'a nullable = Undefined | Null | Val 'a

text \<open>Truthiness of a string field: \<open>undefined\<close>, \<open>null\<close> and the empty string are falsy.\<close>

fun truthy_str :: "jstring nullable \<Rightarrow> bool" where
  "truthy_str (Val s) = (s \<noteq> [])"
| "truthy_str Undefined = False"
| "truthy_str Null = False"

text \<open>A string field inside a template literal.\<close>

fun show_str :: "jstring nullable \<Rightarrow> jstring" where
  "show_str (Val s) = s"
| "show_str Undefined = lit ''undefined''"
| "show_str Null = lit ''null''"

definition digit_char :: "nat \<Rightarrow> code_unit" where
  "digit_char d = u16 CHR ''0'' + int d"

text \<open>A number inside a template literal, in decimal.\<close>

function show_nat :: "nat \<Rightarrow> jstring" where
  "show_nat n = (if n < 10 then [digit_char n]
                 else show_nat (n div 10) @ [digit_char (n mod 10)])"
  by pat_completeness auto
termination
  by (relation "measure id") auto

declare show_nat.simps [simp del]

definition NL :: jstring where
  "NL = [0x0A]"

section \<open>The research agent: fetching the summary\<close>

record raw_info =
  pageid :: "int nullable"
  thumbnail :: "jstring nullable"

record FetchResult =
  topic :: "jstring nullable"
  source :: jstring
  ok :: bool
  summary :: "jstring nullable"
  url :: "jstring nullable"
  error :: "jstring nullable"
  raw :: "raw_info nullable"
  triedTopics :: "jstring list nullable"
  errorSummary :: "jstring nullable"

text \<open>
  The body of a response of the summary service, as far as \<open>fetchWikiSummary\<close> reads it.
  Every field may be missing; the thumbnail object is kept as an opaque string. The
  fields carry the prefix \<open>data_\<close> of the variable that holds the body.
\<close>

record desktop_urls =
  page :: "jstring nullable"

record content_urls_info =
  desktop :: "desktop_urls nullable"

record wiki_data =
  data_title :: "jstring nullable"
  data_extract :: "jstring nullable"
  data_content_urls :: "content_urls_info nullable"
  data_pageid :: "int nullable"
  data_thumbnail :: "jstring nullable"

text \<open>
  What the \<open>catch\<close> block can tell about the value thrown inside \<open>try\<close>: an error of the
  HTTP client with a response (and its status), one with a request but no response, or any
  other error, a \<open>TypeError\<close> of the block itself included.
\<close>

datatype fetch_error = HttpStatus nat | NoResponse | OtherError

text \<open>The outbound call \<open>axios.get(url, ...)\<close>: it throws, or gives \<open>response.data\<close>.\<close>

type_synonym http_get = "jstring \<Rightarrow> fetch_error + wiki_data nullable"

definition WIKI_API_BASE :: jstring where
  "WIKI_API_BASE = lit ''https://en.wikipedia.org/api/rest_v1/page/summary/''"

definition uri_unreserved :: "code_unit \<Rightarrow> bool" where
  "uri_unreserved c = (is_upper c \<or> is_lower c \<or> is_digit c \<or> c \<in> set (lit ''-_.!~*()'')
                       \<or> c = 0x27)"

definition is_high_surrogate :: "code_unit \<Rightarrow> bool" where
  "is_high_surrogate c = (0xD800 \<le> c \<and> c \<le> 0xDBFF)"

definition is_low_surrogate :: "code_unit \<Rightarrow> bool" where
  "is_low_surrogate c = (0xDC00 \<le> c \<and> c \<le> 0xDFFF)"

text \<open>
  The code points of a string; a surrogate that is not part of a pair has none, and
  \<open>encodeURIComponent\<close> throws a \<open>URIError\<close> there.
\<close>

fun code_points :: "jstring \<Rightarrow> int list option" where
  "code_points [] = Some []"
| "code_points [c] =
     (if is_low_surrogate c \<or> is_high_surrogate c then None else Some [c])"
| "code_points (c # d # ds) =
     (if is_low_surrogate c then None
      else if is_high_surrogate c then
        (if is_low_surrogate d
         then map_option (Cons ((c - 0xD800) * 0x400 + (d - 0xDC00) + 0x10000)) (code_points ds)
         else None)
      else map_option (Cons c) (code_points (d # ds)))"

text \<open>The bytes of a code point in UTF-8.\<close>

definition utf8 :: "int \<Rightarrow> int list" where
  "utf8 cp =
     (if cp < 0x80 then [cp]
      else if cp < 0x800 then [0xC0 + cp div 0x40, 0x80 + cp mod 0x40]
      else if cp < 0x10000 then
        [0xE0 + cp div 0x1000, 0x80 + (cp div 0x40) mod 0x40, 0x80 + cp mod 0x40]
      else [0xF0 + cp div 0x40000, 0x80 + (cp div 0x1000) mod 0x40,
            0x80 + (cp div 0x40) mod 0x40, 0x80 + cp mod 0x40])"

definition hex_digit :: "int \<Rightarrow> code_unit" where
  "hex_digit d = (if d < 10 then u16 CHR ''0'' + d else u16 CHR ''A'' + (d - 10))"

definition percent :: "int \<Rightarrow> jstring" where
  "percent byte = [u16 CHR ''%'', hex_digit (byte div 16), hex_digit (byte mod 16)]"

text \<open>\<open>encodeURIComponent\<close>: \<open>None\<close> is the \<open>URIError\<close>.\<close>

definition encodeURIComponent :: "jstring \<Rightarrow> jstring option" where
  "encodeURIComponent s =
     map_option
       (\<lambda>cps. concat (map (\<lambda>cp. if uri_unreserved cp then [cp]
                                 else concat (map percent (utf8 cp))) cps))
       (code_points s)"

text \<open>
  \<open>data.content_urls ? data.content_urls.desktop.page : `https://en.wikipedia.org/wiki/${topic}`\<close>;
  reading \<open>page\<close> of a missing \<open>desktop\<close> throws a \<open>TypeError\<close>.
\<close>

definition page_url :: "wiki_data \<Rightarrow> jstring \<Rightarrow> fetch_error + jstring nullable" where
  "page_url data topic' =
     (case data_content_urls data of
        Val cu \<Rightarrow> (case desktop cu of
                     Val d \<Rightarrow> Inr (page d)
                   | Undefined \<Rightarrow> Inl OtherError
                   | Null \<Rightarrow> Inl OtherError)
      | Undefined \<Rightarrow> Inr (Val (lit ''https://en.wikipedia.org/wiki/'' @ topic'))
      | Null \<Rightarrow> Inr (Val (lit ''https://en.wikipedia.org/wiki/'' @ topic')))"

text \<open>\<open>data.thumbnail || null\<close>.\<close>

definition or_null :: "jstring nullable \<Rightarrow> jstring nullable" where
  "or_null v = (if truthy_str v then v else Null)"

text \<open>The \<open>try\<close> block of \<open>fetchWikiSummary\<close>.\<close>

definition fetch_try :: "http_get \<Rightarrow> jstring \<Rightarrow> fetch_error + FetchResult" where
  "fetch_try get topic' =
     (case encodeURIComponent topic' of
        None \<Rightarrow> Inl OtherError
      | Some encoded \<Rightarrow>
          (case get (WIKI_API_BASE @ encoded) of
             Inl e \<Rightarrow> Inl e
           | Inr Undefined \<Rightarrow> Inl OtherError
           | Inr Null \<Rightarrow> Inl OtherError
           | Inr (Val data) \<Rightarrow>
               (case page_url data topic' of
                  Inl e \<Rightarrow> Inl e
                | Inr u \<Rightarrow>
                    Inr \<lparr> topic = data_title data, source = lit ''wikipedia'', ok = True,
                          summary = data_extract data, url = u, error = Undefined,
                          raw = Val \<lparr> pageid = data_pageid data,
                                      thumbnail = or_null (data_thumbnail data) \<rparr>,
                          triedTopics = Undefined, errorSummary = Undefined \<rparr>)))"

text \<open>The \<open>catch\<close> block of \<open>fetchWikiSummary\<close>.\<close>

definition fetch_catch :: "jstring \<Rightarrow> fetch_error \<Rightarrow> FetchResult" where
  "fetch_catch topic' e =
     (let errorMessage =
        (case e of
           HttpStatus httpStatus \<Rightarrow>
             if httpStatus = 404
             then lit ''Topic not found on Wikipedia (HTTP '' @ show_nat httpStatus @ lit '').''
             else lit ''Wikipedia API returned error status '' @ show_nat httpStatus @ lit ''.''
         | NoResponse \<Rightarrow> (lit ''No response received from Wikipedia API.'')
         | OtherError \<Rightarrow> (lit ''Network or unknown API error.''))
      in \<lparr> topic = Val topic', source = lit ''wikipedia'', ok = False,
            summary = Null, url = Null, error = Val errorMessage,
            raw = Undefined, triedTopics = Undefined, errorSummary = Undefined \<rparr>)"

definition fetchWikiSummary :: "http_get \<Rightarrow> jstring \<Rightarrow> FetchResult" where
  "fetchWikiSummary get topic' =
     (case fetch_try get topic' of
        Inr result \<Rightarrow> result
      | Inl e \<Rightarrow> fetch_catch topic' e)"

text \<open>
  \<open>ResearchAgent.run\<close>: the branch for a failed primary topic only logs, the retry with
  \<open>FALLBACK_TOPIC\<close> being commented out, so the result of the first call is returned.
\<close>

definition ResearchAgent_run :: "runtime \<Rightarrow> http_get \<Rightarrow> jstring \<Rightarrow> FetchResult" where
  "ResearchAgent_run rt get query =
     (let primaryTopic = extractTopic rt query;
          result = fetchWikiSummary get primaryTopic
      in if \<not> ok result \<and> primaryTopic \<noteq> FALLBACK_TOPIC then result else result)"

section \<open>The analysis agent\<close>

datatype Difficulty = Beginner | Intermediate | IntermediateAdvanced | Unknown

fun difficulty_name :: "Difficulty \<Rightarrow> jstring" where
  "difficulty_name Beginner = lit ''beginner''"
| "difficulty_name Intermediate = lit ''intermediate''"
| "difficulty_name IntermediateAdvanced = lit ''intermediate-advanced''"
| "difficulty_name Unknown = lit ''unknown''"

record AnalysisResult =
  hasContent :: bool
  difficulty :: Difficulty
  keyPoints :: "jstring list"
  advisory :: jstring

definition ADVANCED_WORDS :: "jstring list" where
  "ADVANCED_WORDS = map lit
    [''cluster'', ''orchestration'', ''distributed'', ''concurrency'',
     ''containerization'', ''scalability'', ''stateless'', ''latency'', ''asynchronous'',
     ''pipeline'', ''microservices'']"

definition BEGINNER_WORDS :: "jstring list" where
  "BEGINNER_WORDS = map lit [''introduction'', ''basic'', ''getting started'', ''simple'',
     ''fundamental'', ''beginner'']"

definition inferDifficulty :: "runtime \<Rightarrow> jstring \<Rightarrow> Difficulty" where
  "inferDifficulty rt summary' =
     (let lowerSummary = toLowerCase rt summary';
          advancedCount = length (filter (str_includes lowerSummary) ADVANCED_WORDS);
          beginnerCount = length (filter (str_includes lowerSummary) BEGINNER_WORDS)
      in if beginnerCount > advancedCount \<and> beginnerCount \<ge> 1 then Beginner
         else if advancedCount \<ge> 2 then IntermediateAdvanced
         else Intermediate)"

definition is_terminator :: "code_unit \<Rightarrow> bool" where
  "is_terminator c = (c = u16 CHR ''.'' \<or> c = u16 CHR ''!'' \<or> c = u16 CHR ''?'')"

text \<open>
  One match of \<open>/[^.!?]+[.!?]\s+/\<close> at the start of the input: the match and the rest.
  The first run is greedy and cannot be shortened, a shorter run being followed by a
  character that is no terminator; the run of white space is the longest one.
\<close>

definition sentence_at :: "jstring \<Rightarrow> (jstring \<times> jstring) option" where
  "sentence_at s =
     (let body = takeWhile (\<lambda>c. \<not> is_terminator c) s in
      if body = [] then None
      else (case dropWhile (\<lambda>c. \<not> is_terminator c) s of
              [] \<Rightarrow> None
            | t # r \<Rightarrow>
                (let ws = takeWhile is_space r in
                 if ws = [] then None
                 else Some (body @ t # ws, dropWhile is_space r))))"

lemma sentence_at_shorter:
  "sentence_at s = Some (m, r) \<Longrightarrow> length r < length s"
proof -
  assume a: "sentence_at s = Some (m, r)"
  let ?d = "dropWhile (\<lambda>c. \<not> is_terminator c) s"
  from a obtain t r' where d: "?d = t # r'" and r: "r = dropWhile is_space r'"
    by (auto simp: sentence_at_def Let_def split: list.splits if_splits)
  have "length r \<le> length r'" using r by (simp add: length_dropWhile_le)
  also have "\<dots> < length ?d" using d by simp
  also have "\<dots> \<le> length s" by (simp add: length_dropWhile_le)
  finally show ?thesis .
qed

text \<open>
  \<open>summary.match(/[^.!?]+[.!?]\s+/g)\<close>: the matches from left to right, each search
  starting where the previous match ended, and moving on by one character where no match
  starts.
\<close>

function match_sentences :: "jstring \<Rightarrow> jstring list" where
  "match_sentences [] = []"
| "match_sentences (c # cs) =
     (case sentence_at (c # cs) of
        Some (m, r) \<Rightarrow> m # match_sentences r
      | None \<Rightarrow> match_sentences cs)"
  by pat_completeness auto
termination
  by (relation "measure length") (auto dest: sentence_at_shorter)

text \<open>\<open>summary.match(...) || [summary]\<close>: without a match the result of \<open>match\<close> is \<open>null\<close>.\<close>

definition sentences_of :: "jstring \<Rightarrow> jstring list" where
  "sentences_of summary' =
     (if match_sentences summary' = [] then [summary'] else match_sentences summary')"

definition extractKeyPoints :: "jstring \<Rightarrow> nat \<Rightarrow> jstring list" where
  "extractKeyPoints summary' maxPoints =
     (if summary' = [] then []
      else take maxPoints
             (filter (\<lambda>s. length s > 20) (map trim (sentences_of summary'))))"

definition no_content_analysis :: AnalysisResult where
  "no_content_analysis =
     \<lparr> hasContent = False, difficulty = Unknown, keyPoints = [],
       advisory = lit ''No research content was found to analyze.'' \<rparr>"

text \<open>
  \<open>AnalysisAgent.run\<close>. Past the guard the summary is a non-empty string, so the last
  two cases of the \<open>case\<close> are never reached.
\<close>

definition AnalysisAgent_run :: "runtime \<Rightarrow> FetchResult \<Rightarrow> AnalysisResult" where
  "AnalysisAgent_run rt researchResult =
     (if \<not> ok researchResult \<or> \<not> truthy_str (summary researchResult)
      then no_content_analysis
      else (case summary researchResult of
              Val summary' \<Rightarrow>
                (let keyPoints' = extractKeyPoints summary' 5;
                     finalPoints = (if length keyPoints' = 0 \<and> summary' \<noteq> []
                                    then [summary'] else keyPoints');
                     difficulty' = inferDifficulty rt summary'
                 in \<lparr> hasContent = True, difficulty = difficulty',
                       keyPoints = finalPoints,
                       advisory = lit ''These points are based on an initial Wikipedia summary; always cross-check for critical or specific decisions.'' \<rparr>)
            | Undefined \<Rightarrow> no_content_analysis
            | Null \<Rightarrow> no_content_analysis))"

section \<open>The task agent\<close>

datatype Mode = GettingStarted | Comparison | Overview | NoContent

fun mode_name :: "Mode \<Rightarrow> jstring" where
  "mode_name GettingStarted = lit ''getting-started''"
| "mode_name Comparison = lit ''comparison''"
| "mode_name Overview = lit ''overview''"
| "mode_name NoContent = lit ''no-content''"

definition classifyIntent :: "runtime \<Rightarrow> jstring \<Rightarrow> bool \<Rightarrow> Mode" where
  "classifyIntent rt query hasContent' =
     (if \<not> hasContent' then NoContent
      else let lowerQuery = toLowerCase rt query in
        if str_includes lowerQuery (lit ''how to'') \<or> str_includes lowerQuery (lit ''how do i'') \<or>
           str_includes lowerQuery (lit ''get started'') \<or> str_includes lowerQuery (lit ''for beginners'') \<or>
           str_includes lowerQuery (lit ''learn'')
        then GettingStarted
        else if str_includes lowerQuery (lit ''compare'') \<or> str_includes lowerQuery (lit '' vs '')
        then Comparison
        else Overview)"

text \<open>The three symbols of the answer texts (U+1F4DA, U+274C and U+1F4A1) in UTF-16, and the
  two quotes.\<close>

definition BOOKS :: jstring where
  "BOOKS = [0xD83D, 0xDCDA]"

definition CROSS_MARK :: jstring where
  "CROSS_MARK = [0x274C]"

definition LIGHT_BULB :: jstring where
  "LIGHT_BULB = [0xD83D, 0xDCA1]"

definition DQ :: jstring where
  "DQ = [0x22]"

definition SQ :: jstring where
  "SQ = [0x27]"

text \<open>The heading every rendered answer starts with.\<close>

definition heading :: "jstring \<Rightarrow> jstring" where
  "heading topic' = lit ''## '' @ BOOKS @ lit '' '' @ topic' @ NL @ NL"

definition generateAnswer ::
  "runtime \<Rightarrow> FetchResult \<Rightarrow> AnalysisResult \<Rightarrow> Mode \<Rightarrow> jstring" where
  "generateAnswer rt research' analysis' mode' =
     (let topic' = show_str (topic research');
          url' = show_str (url research');
          difficultyText = capitalize rt (difficulty_name (difficulty analysis'));
          answer = heading topic';
          answer =
            (if mode' = GettingStarted then
               answer @ lit ''**Presentation Mode: GETTING STARTED**'' @ NL @ NL
                 @ lit ''Welcome! The topic of **'' @ topic'
                 @ lit ''** has been identified with a complexity level of: **''
                 @ difficultyText @ lit ''**.'' @ NL @ NL
                 @ lit ''To start your learning journey, focus on the fundamentals outlined below:''
                 @ NL @ NL
                 @ concat (map (\<lambda>point. lit ''- **'' @ point @ lit ''**'' @ NL) (keyPoints analysis'))
                 @ NL @ lit ''---'' @ NL @ NL
                 @ lit ''### '' @ LIGHT_BULB @ lit '' Suggested Next Steps'' @ NL
                 @ lit ''* **Read the Official Docs:** Start with the main documentation page linked below.''
                 @ NL
                 @ lit ''* **Try a Simple Tutorial:** Search for a '' @ DQ @ lit ''Hello World'' @ DQ
                 @ lit '' or equivalent first project.'' @ NL
                 @ lit ''* **Understand Core Concepts:** Ensure you grasp the basic principles (e.g., if it''
                 @ SQ @ lit ''s a tech topic, what is its primary problem domain?).'' @ NL @ NL
             else if mode' = Comparison then
               answer @ lit ''**Presentation Mode: COMPARISON**'' @ NL @ NL
                 @ lit ''Here is an **Overview** of **'' @ topic'
                 @ lit ''** to help you start your comparison (Difficulty: **''
                 @ difficultyText @ lit ''**):'' @ NL @ NL
                 @ concat (map (\<lambda>point. lit ''* '' @ point @ NL) (keyPoints analysis'))
                 @ NL @ lit ''---'' @ NL @ NL
                 @ lit ''For a detailed comparison, you'' @ SQ
                 @ lit ''ll need to research its key alternatives and competitors. The points above provide its core foundation.''
                 @ NL @ NL
             else
               answer @ lit ''**Presentation Mode: OVERVIEW**'' @ NL @ NL
                 @ lit ''Here'' @ SQ @ lit ''s a high-level overview of **'' @ topic'
                 @ lit ''** (Difficulty: **'' @ difficultyText @ lit ''**):'' @ NL @ NL
                 @ concat (map (\<lambda>point. lit ''* '' @ point @ NL) (keyPoints analysis')))
      in answer @ NL @ lit ''---'' @ NL
           @ lit ''**Source URL:** [Wikipedia: '' @ topic' @ lit ''](''  @ url' @ lit '')'' @ NL
           @ lit ''**Advisory:** *'' @ advisory analysis' @ lit ''*'' @ NL)"

record TaskResult =
  mode :: Mode
  finalAnswer :: jstring

text \<open>
  The answer of the mode \<open>no-content\<close>: the topics tried are those of an array
  \<open>triedTopics\<close> with an element, else the topic when it is truthy; the reason is the
  first truthy of \<open>errorSummary\<close> and \<open>error\<close>.
\<close>

definition no_content_answer :: "jstring \<Rightarrow> FetchResult \<Rightarrow> jstring" where
  "no_content_answer query researchResult =
     (let topicOrNone =
            (if truthy_str (topic researchResult) then show_str (topic researchResult)
             else lit ''No candidate topics were generated'');
          topicsTried =
            (case triedTopics researchResult of
               Val ts \<Rightarrow> if length ts > 0 then join (lit '', '') ts else topicOrNone
             | Undefined \<Rightarrow> topicOrNone
             | Null \<Rightarrow> topicOrNone);
          reason =
            (if truthy_str (errorSummary researchResult)
             then show_str (errorSummary researchResult)
             else if truthy_str (error researchResult) then show_str (error researchResult)
             else lit ''No suitable Wikipedia article was found for this query.'')
      in join NL
           [lit ''## '' @ CROSS_MARK @ lit '' No Content Found'',
            [],
            lit ''The agent pipeline could not build an answer from Wikipedia for your question.'',
            [],
            lit ''Query: '' @ query,
            lit ''Topics tried: '' @ topicsTried,
            lit ''Reason: '' @ reason,
            [],
            lit ''Suggestions:'',
            lit ''- Try using a broader or simpler topic (remove prices, dates, or very local details).'',
            lit ''- Check spelling for names or technical terms.'',
            lit ''- If your question is about a very specific product or version, try asking about the general concept instead.''])"

definition TaskAgent_run ::
  "runtime \<Rightarrow> jstring \<Rightarrow> FetchResult \<Rightarrow> AnalysisResult \<Rightarrow> TaskResult" where
  "TaskAgent_run rt query researchResult analysisResult =
     (let mode' = classifyIntent rt query (hasContent analysisResult);
          finalAnswer' =
            (if mode' = NoContent then no_content_answer query researchResult
             else generateAnswer rt researchResult analysisResult mode')
      in \<lparr> mode = mode', finalAnswer = finalAnswer' \<rparr>)"

section \<open>The coordinator\<close>

text \<open>
  The response object. The fields \<open>error\<close>, \<open>query\<close> and \<open>finalAnswer\<close> carry the suffix
  \<open>_r\<close>, their names being taken by fields of the other records; \<open>task\<close> is the object
  \<open>{ mode }\<close>. A field that an exit path does not set is \<open>Undefined\<close>.
\<close>

record PipelineResponse =
  error_r :: "bool nullable"
  errorMessage :: "jstring nullable"
  query_r :: "jstring nullable"
  timestamp :: "jstring nullable"
  research :: "FetchResult nullable"
  analysis :: "AnalysisResult nullable"
  task :: Mode
  finalAnswer_r :: jstring

text \<open>A value thrown by a stage: an \<open>Error\<close> object with its message.\<close>

datatype exn = Error jstring

definition failed_analysis :: AnalysisResult where
  "failed_analysis =
     \<lparr> hasContent = False, difficulty = Unknown, keyPoints = [],
       advisory = lit ''Analysis failed unexpectedly.'' \<rparr>"

text \<open>
  \<open>CoordinatorAgent.orchestrate\<close>, for any three agents held in the fields of the
  coordinator: a call of an agent returns (\<open>Inr\<close>) or throws (\<open>Inl\<close>), and every
  \<open>try\<close>/\<open>catch\<close> is a \<open>case\<close>. The argument \<open>now\<close> is \<open>new Date().toISOString()\<close>.
\<close>

definition orchestrate ::
  "(jstring \<Rightarrow> exn + FetchResult) \<Rightarrow> (FetchResult \<Rightarrow> exn + AnalysisResult) \<Rightarrow>
   (jstring \<Rightarrow> FetchResult \<Rightarrow> AnalysisResult \<Rightarrow> exn + TaskResult) \<Rightarrow>
   jstring \<Rightarrow> jstring \<Rightarrow> PipelineResponse" where
  "orchestrate researchAgent analysisAgent taskAgent now query =
     (case researchAgent query of
        Inl err \<Rightarrow>
          \<lparr> error_r = Val True,
            errorMessage = Val (lit ''Research step failed unexpectedly.''),
            query_r = Undefined, timestamp = Undefined,
            research = Null, analysis = Null, task = NoContent,
            finalAnswer_r =
              lit ''No Content Found'' @ NL @ NL
              @ lit ''The research agent encountered an unexpected error while processing your query: ''
              @ DQ @ query @ DQ @ lit ''.'' \<rparr>
      | Inr researchResult \<Rightarrow>
          (let analysisResult =
                 (case analysisAgent researchResult of
                    Inr a \<Rightarrow> a
                  | Inl err \<Rightarrow> failed_analysis)
           in case taskAgent query researchResult analysisResult of
                Inl err \<Rightarrow>
                  \<lparr> error_r = Val True,
                    errorMessage = Val (lit ''Task planning failed unexpectedly.''),
                    query_r = Undefined, timestamp = Undefined,
                    research = Val researchResult, analysis = Val analysisResult,
                    task = NoContent,
                    finalAnswer_r =
                      (lit ''An internal error prevented generating a final answer for the query: '')
                      @ DQ @ query @ DQ @ lit ''.'' \<rparr>
              | Inr taskResult \<Rightarrow>
                  \<lparr> error_r = Undefined, errorMessage = Undefined,
                    query_r = Val query, timestamp = Val now,
                    research = Val researchResult, analysis = Val analysisResult,
                    task = mode taskResult,
                    finalAnswer_r = finalAnswer taskResult \<rparr>))"

text \<open>
  The coordinator with the agents its constructor creates, over the outbound call
  \<open>get\<close>. None of the three throws: the research agent catches every failure of the call,
  and the other two are total on the records they receive.
\<close>

definition CoordinatorAgent_orchestrate ::
  "runtime \<Rightarrow> http_get \<Rightarrow> jstring \<Rightarrow> jstring \<Rightarrow> PipelineResponse" where
  "CoordinatorAgent_orchestrate rt get now query =
     orchestrate (\<lambda>q. Inr (ResearchAgent_run rt get q))
                 (\<lambda>r. Inr (AnalysisAgent_run rt r))
                 (\<lambda>q r a. Inr (TaskAgent_run rt q r a))
                 now query"

section \<open>Notions of the specification\<close>

text \<open>
  The rule of the intent classifier in the words of the specification: the first rule that
  applies wins, and a phrase is contained when it is a contiguous piece of the lower-cased
  query.
\<close>

definition classify_spec :: "runtime \<Rightarrow> jstring \<Rightarrow> bool \<Rightarrow> Mode" where
  "classify_spec rt q hasContent' =
     (if \<not> hasContent' then NoContent
      else if \<exists>p \<in> set (map lit [''how to'', ''how do i'', ''get started'', ''for beginners'',
                                   ''learn'']).
                sublist p (toLowerCase rt q)
           then GettingStarted
      else if \<exists>p \<in> set (map lit [''compare'', '' vs '']). sublist p (toLowerCase rt q)
           then Comparison
      else Overview)"

text \<open>
  A well-formed response has one of the two shapes the coordinator builds. A failure
  response carries the flag \<open>error\<close>, a message, the mode \<open>no-content\<close> and a final answer,
  with research and analysis both \<open>null\<close> or both present. A normal response carries
  the query, the time stamp, the research and the analysis, and no flag.
\<close>

fun is_val :: "'a nullable \<Rightarrow> bool" where
  "is_val (Val x) = True"
| "is_val Undefined = False"
| "is_val Null = False"

definition well_formed_response :: "PipelineResponse \<Rightarrow> bool" where
  "well_formed_response r =
     (case error_r r of
        Val flag \<Rightarrow>
          flag \<and> truthy_str (errorMessage r) \<and> task r = NoContent \<and> finalAnswer_r r \<noteq> [] \<and>
          query_r r = Undefined \<and> timestamp r = Undefined \<and>
          (research r = Null \<and> analysis r = Null \<or>
           is_val (research r) \<and> is_val (analysis r))
      | Undefined \<Rightarrow>
          errorMessage r = Undefined \<and> is_val (query_r r) \<and> is_val (timestamp r) \<and>
          is_val (research r) \<and> is_val (analysis r)
      | Null \<Rightarrow> False)"

section \<open>Example inputs\<close>

text \<open>
  A fetch result with a one-sentence summary, a response body without the field
  \<open>extract\<close>, and a response body in the documented format.
\<close>

definition short_summary :: FetchResult where
  "short_summary = \<lparr> topic = Val (lit ''Rome''), source = lit ''wikipedia'', ok = True,
     summary = Val (lit ''Rome is a city.''), url = Val (lit ''https://en.wikipedia.org/wiki/Rome''),
     error = Undefined, raw = Undefined, triedTopics = Undefined, errorSummary = Undefined \<rparr>"

definition no_extract :: wiki_data where
  "no_extract = \<lparr> data_title = Val (lit ''Rome''), data_extract = Undefined,
     data_content_urls = Undefined, data_pageid = Val 25458, data_thumbnail = Undefined \<rparr>"

definition rome :: wiki_data where
  "rome = \<lparr> data_title = Val (lit ''Rome''), data_extract = Val (lit ''Rome is the capital city of Italy.''),
     data_content_urls = Val \<lparr> desktop = Val \<lparr> page = Val (lit ''https://en.wikipedia.org/wiki/Rome'') \<rparr> \<rparr>,
     data_pageid = Val 25458, data_thumbnail = Undefined \<rparr>"

text \<open>
  The three sentences of a summary of Ada Lovelace, and the response body that carries a
  summary under her title.
\<close>

definition ada_sentences :: "jstring list" where
  "ada_sentences =
     map lit [''Ada Lovelace was an English writer.'',
              ''She worked with Charles Babbage.'',
              ''She wrote the first program.'']"

definition ada_body :: "jstring \<Rightarrow> wiki_data" where
  "ada_body summary' =
     \<lparr> data_title = Val (lit ''Ada Lovelace''), data_extract = Val summary',
       data_content_urls =
         Val \<lparr> desktop = Val \<lparr> page = Val (lit ''https://en.wikipedia.org/wiki/Ada_Lovelace'') \<rparr> \<rparr>,
       data_pageid = Val 974, data_thumbnail = Undefined \<rparr>"

section \<open>Properties of the lookup key\<close>

subsection \<open>Characters and tokens\<close>

lemma lit_eq_Nil: "(lit s = []) = (s = [])"
  by (simp add: lit_def)

lemma is_word_char_clean: "is_word_char c \<Longrightarrow> clean c"
  by (auto simp: clean_def is_space_def is_word_char_def is_upper_def is_lower_def
      is_digit_def u16_def)

lemma is_word_char_ascii: "is_word_char c \<Longrightarrow> c < 128"
  by (auto simp: is_word_char_def is_upper_def is_lower_def is_digit_def)

lemma ascii_upper_clean: "clean c \<Longrightarrow> clean (ascii_upper c)"
  by (auto simp: clean_def is_space_def ascii_upper_def is_lower_def u16_def)

lemma upper_keeps_clean_ascii: "upper_keeps_clean ascii_runtime"
  by (simp add: upper_keeps_clean_def ascii_runtime_def ascii_upper_clean)

lemma ascii_conform_ascii: "ascii_conform ascii_runtime"
  by (simp add: ascii_conform_def ascii_runtime_def)

lemma split_ws_not_Nil: "split_ws s \<noteq> []"
  by (induction s rule: split_ws.induct) (auto split: list.splits)

lemma split_ws_Cons:
  "\<not> is_space d \<Longrightarrow> split_ws (d # ds) = (d # hd (split_ws ds)) # tl (split_ws ds)"
  using split_ws_not_Nil[of ds] by (cases "split_ws ds") auto

lemma split_ws_no_space: "w \<in> set (split_ws s) \<Longrightarrow> c \<in> set w \<Longrightarrow> \<not> is_space c"
proof (induction s arbitrary: w rule: split_ws.induct)
  case 1
  then show ?case by simp
next
  case (2 d ds)
  show ?case
  proof (cases "is_space d")
    case True
    with 2 show ?thesis by auto
  next
    case False
    have ne: "split_ws ds \<noteq> []" by (rule split_ws_not_Nil)
    from 2(3) have "w \<in> set ((d # hd (split_ws ds)) # tl (split_ws ds))"
      unfolding split_ws_Cons[OF False] .
    then consider "w = d # hd (split_ws ds)" | "w \<in> set (tl (split_ws ds))"
      by auto
    then show ?thesis
    proof cases
      case 1
      with 2(4) have "c = d \<or> c \<in> set (hd (split_ws ds))" by auto
      moreover have "hd (split_ws ds) \<in> set (split_ws ds)" using ne by simp
      ultimately show ?thesis using False 2(2)[OF False] by blast
    next
      case 2
      then have "w \<in> set (split_ws ds)" using ne by (meson list.set_sel(2))
      then show ?thesis using False "2.IH"(2) "2.prems"(2) by blast
    qed
  qed
qed

lemma split_ws_subset: "w \<in> set (split_ws s) \<Longrightarrow> set w \<subseteq> set s"
proof (induction s arbitrary: w rule: split_ws.induct)
  case 1
  then show ?case by simp
next
  case (2 d ds)
  show ?case
  proof (cases "is_space d")
    case True
    with 2 have "w = [] \<or> set w \<subseteq> set (dropWhile is_space ds)" by auto
    moreover have "set (dropWhile is_space ds) \<subseteq> set ds"
      by (meson set_dropWhileD subsetI)
    ultimately show ?thesis by auto
  next
    case False
    have ne: "split_ws ds \<noteq> []" by (rule split_ws_not_Nil)
    from 2(3) have "w \<in> set ((d # hd (split_ws ds)) # tl (split_ws ds))"
      unfolding split_ws_Cons[OF False] .
    then consider "w = d # hd (split_ws ds)" | "w \<in> set (tl (split_ws ds))"
      by auto
    then show ?thesis
    proof cases
      case 1
      have "hd (split_ws ds) \<in> set (split_ws ds)" using ne by simp
      then have "set (hd (split_ws ds)) \<subseteq> set ds" using "2.IH"(2) False by blast
      with 1 show ?thesis by auto
    next
      case 2
      then have "w \<in> set (split_ws ds)" using ne by (meson list.set_sel(2))
      then have "set w \<subseteq> set ds" using "2.IH"(2) False by blast
      then show ?thesis by auto
    qed
  qed
qed

lemma split_ws_covers:
  "c \<in> set s \<Longrightarrow> \<not> is_space c \<Longrightarrow> \<exists>w \<in> set (split_ws s). c \<in> set w"
proof (induction s rule: split_ws.induct)
  case 1
  then show ?case by simp
next
  case (2 d ds)
  show ?case
  proof (cases "is_space d")
    case True
    with 2 have "c \<in> set ds" by auto
    with 2(4) have "c \<in> set (dropWhile is_space ds)"
      by (induction ds) auto
    with 2 True show ?thesis by auto
  next
    case False
    show ?thesis
    proof (cases "c = d")
      case True
      with False show ?thesis by (auto split: list.splits)
    next
      case ne: False
      with 2 have "c \<in> set ds" by auto
      with 2 False obtain w where "w \<in> set (split_ws ds)" "c \<in> set w" by auto
      with False show ?thesis by (auto split: list.splits)
    qed
  qed
qed

lemma tokens_nonempty: "w \<in> set (tokens s) \<Longrightarrow> w \<noteq> []"
  by (simp add: tokens_def)

lemma tokens_no_space: "w \<in> set (tokens s) \<Longrightarrow> c \<in> set w \<Longrightarrow> \<not> is_space c"
  by (auto simp: tokens_def dest: split_ws_no_space)

lemma tokens_subset: "w \<in> set (tokens s) \<Longrightarrow> set w \<subseteq> set s"
  by (auto simp: tokens_def dest: split_ws_subset)

lemma tokens_covers:
  "c \<in> set s \<Longrightarrow> \<not> is_space c \<Longrightarrow> \<exists>w \<in> set (tokens s). c \<in> set w"
  using split_ws_covers[of c s] by (auto simp: tokens_def)

lemma set_join_subset: "set (join sep xs) \<subseteq> set sep \<union> \<Union> (set ` set xs)"
  by (induction sep xs rule: join.induct) auto

lemma set_join_member: "x \<in> set xs \<Longrightarrow> set x \<subseteq> set (join sep xs)"
  by (induction sep xs rule: join.induct) auto

lemma trim_keeps: "c \<in> set s \<Longrightarrow> \<not> is_space c \<Longrightarrow> c \<in> set (trim s)"
proof -
  have keep: "\<And>xs. c \<in> set xs \<Longrightarrow> \<not> is_space c \<Longrightarrow> c \<in> set (dropWhile is_space xs)"
    subgoal for xs by (induction xs) auto
    done
  assume "c \<in> set s" "\<not> is_space c"
  then show ?thesis
    unfolding trim_def by (simp add: keep)
qed

lemma trim_subset: "set (trim s) \<subseteq> set s"
proof -
  have "set (trim s) = set (dropWhile is_space (rev (dropWhile is_space s)))"
    by (simp add: trim_def)
  also have "\<dots> \<subseteq> set (rev (dropWhile is_space s))"
    by (meson set_dropWhileD subsetI)
  also have "\<dots> \<subseteq> set s"
    using set_dropWhileD by fastforce
  finally show ?thesis .
qed

lemma capitalize_clean:
  assumes "upper_keeps_clean rt" "w \<noteq> []" "\<forall>c \<in> set w. clean c"
  shows "capitalize rt w \<noteq> [] \<and> (\<forall>c \<in> set (capitalize rt w). clean c)"
proof -
  from assms(2) obtain c cs where w: "w = c # cs" by (cases w) auto
  with assms(3) have c: "clean c" and cs: "\<forall>d \<in> set cs. clean d" by auto
  from assms(1) c have "toUpperCase rt [c] \<noteq> []" "\<forall>d \<in> set (toUpperCase rt [c]). clean d"
    by (simp_all add: upper_keeps_clean_def list_all_iff)
  with cs show ?thesis by (auto simp: capitalize_def w)
qed

lemma token_clean:
  assumes "w \<in> set (tokens (remove_qmarks (trim p)))"
  shows "w \<noteq> [] \<and> (\<forall>c \<in> set w. clean c)"
proof -
  let ?s = "remove_qmarks (trim p)"
  have "clean d" if d: "d \<in> set w" for d
  proof -
    from assms d have "\<not> is_space d" by (rule tokens_no_space)
    moreover from d assms have "d \<in> set ?s" using tokens_subset by blast
    then have "d \<noteq> u16 CHR ''?''" by (simp add: remove_qmarks_def)
    ultimately show "clean d" by (simp add: clean_def)
  qed
  with assms show ?thesis by (auto dest: tokens_nonempty)
qed

lemma normalizeTitle_clean:
  assumes "upper_keeps_clean rt" "c \<in> set (normalizeTitle rt p)"
  shows "clean c"
proof -
  let ?s = "remove_qmarks (trim p)"
  from assms(2) have "c \<in> set (lit ''_'') \<union> \<Union> (set ` set (map (capitalize rt) (tokens ?s)))"
    using set_join_subset unfolding normalizeTitle_def by blast
  then consider "c = u16 CHR ''_''" | w where "w \<in> set (tokens ?s)" "c \<in> set (capitalize rt w)"
    by (auto simp: lit_def)
  then show ?thesis
  proof cases
    case 1
    then show ?thesis by (simp add: clean_def is_space_def u16_def)
  next
    case 2
    from 2(1) have "w \<noteq> []" "\<forall>d \<in> set w. clean d" using token_clean by blast+
    with assms(1) 2(2) show ?thesis using capitalize_clean by blast
  qed
qed

lemma normalizeTitle_nonempty:
  assumes "upper_keeps_clean rt" "c \<in> set p" "clean c"
  shows "normalizeTitle rt p \<noteq> []"
proof -
  let ?s = "remove_qmarks (trim p)"
  from assms(2,3) have "c \<in> set ?s"
    by (simp add: remove_qmarks_def clean_def trim_keeps)
  with assms(3) obtain w where w: "w \<in> set (tokens ?s)" "c \<in> set w"
    using tokens_covers[of c ?s] by (auto simp: clean_def)
  from w(1) have "w \<noteq> []" "\<forall>d \<in> set w. clean d" using token_clean by blast+
  with assms(1) have "capitalize rt w \<noteq> []" using capitalize_clean by blast
  moreover from w(1) have "capitalize rt w \<in> set (map (capitalize rt) (tokens ?s))" by simp
  then have "set (capitalize rt w) \<subseteq> set (normalizeTitle rt p)"
    unfolding normalizeTitle_def by (rule set_join_member)
  ultimately show ?thesis by auto
qed

lemma try_patterns_result:
  "upper_keeps_clean rt \<Longrightarrow> try_patterns rt ps t = Some r \<Longrightarrow>
     3 \<le> length r \<and> (\<forall>c \<in> set r. clean c)"
  by (induction ps) (auto simp: Let_def normalizeTitle_clean split: option.splits if_splits)

lemma keyword_candidate_subset:
  "set (keyword_candidate lower)
     \<subseteq> set (tokens (filter (\<lambda>c. is_word_char c \<or> is_space c) lower))"
proof -
  have drop2: "\<And>x (xs :: jstring list). x \<in> set (slice_last2 xs) \<Longrightarrow> x \<in> set xs"
    unfolding slice_last2_def by (rule in_set_dropD)
  show ?thesis
    unfolding keyword_candidate_def Let_def
    by (auto split: if_splits dest!: drop2)
qed

lemma keyword_candidate_words:
  assumes "w \<in> set (keyword_candidate lower)"
  shows "w \<noteq> [] \<and> (\<forall>c \<in> set w. clean c)"
proof -
  let ?s = "filter (\<lambda>c. is_word_char c \<or> is_space c) lower"
  from assms have w: "w \<in> set (tokens ?s)"
    using keyword_candidate_subset by blast
  then have ne: "w \<noteq> []" by (rule tokens_nonempty)
  have "clean c" if c: "c \<in> set w" for c
  proof -
    from w c have "\<not> is_space c" by (rule tokens_no_space)
    moreover from w c have "c \<in> set ?s" using tokens_subset by blast
    ultimately have "is_word_char c" by simp
    then show ?thesis by (rule is_word_char_clean)
  qed
  with ne show ?thesis by blast
qed

lemma keyword_fallback_clean:
  "upper_keeps_clean rt \<Longrightarrow> c \<in> set (keyword_fallback rt q lower) \<Longrightarrow> clean c"
  by (auto simp: keyword_fallback_def Let_def normalizeTitle_clean split: if_splits)

lemma keyword_fallback_nonempty:
  assumes "upper_keeps_clean rt" "c \<in> set q" "clean c"
  shows "keyword_fallback rt q lower \<noteq> []"
proof (cases "3 \<le> length (join (lit ''_'') (keyword_candidate lower))")
  case True
  then have "keyword_candidate lower \<noteq> []" by auto
  then obtain w where w: "w \<in> set (keyword_candidate lower)"
    by (meson last_in_set)
  then have "w \<noteq> []" "\<forall>d \<in> set w. clean d"
    using keyword_candidate_words by blast+
  then obtain d where d: "d \<in> set w" "clean d"
    by (meson hd_in_set)
  with w have "d \<in> set (join (lit '' '') (keyword_candidate lower))"
    using set_join_member by blast
  with assms(1) have "normalizeTitle rt (join (lit '' '') (keyword_candidate lower)) \<noteq> []"
    using d(2) by (rule normalizeTitle_nonempty)
  with True show ?thesis by (simp add: keyword_fallback_def Let_def)
next
  case False
  with assms show ?thesis
    by (simp add: keyword_fallback_def Let_def normalizeTitle_nonempty)
qed

subsection \<open>The key of a query\<close>

text \<open>
  Claim C1, as amended. For every query the key returned by \<open>extractTopic\<close> contains
  no white space and no question mark, and for every query with at least one character
  that is neither white space nor a question mark the key is non-empty. White space is
  that of the language, and the key is measured in code units. Of \<open>toUpperCase\<close> the
  proof uses that it maps a character that is neither white space nor a question mark to a
  non-empty string of such characters, as the Unicode case mappings do.
\<close>

theorem extractTopic_key_shape:
  assumes "upper_keeps_clean rt"
  shows "(\<forall>c \<in> set (extractTopic rt q). \<not> is_space c \<and> c \<noteq> u16 CHR ''?'') \<and>
         ((\<exists>c \<in> set q. \<not> is_space c \<and> c \<noteq> u16 CHR ''?'') \<longrightarrow> extractTopic rt q \<noteq> [])"
proof (rule conjI)
  show "\<forall>c \<in> set (extractTopic rt q). \<not> is_space c \<and> c \<noteq> u16 CHR ''?''"
  proof
    fix c assume "c \<in> set (extractTopic rt q)"
    then have "clean c"
      using assms
      by (auto simp: extractTopic_def Let_def keyword_fallback_clean
          split: if_splits option.splits dest: try_patterns_result)
    then show "\<not> is_space c \<and> c \<noteq> u16 CHR ''?''" by (simp add: clean_def)
  qed
next
  show "(\<exists>c \<in> set q. \<not> is_space c \<and> c \<noteq> u16 CHR ''?'') \<longrightarrow> extractTopic rt q \<noteq> []"
  proof
    assume "\<exists>c \<in> set q. \<not> is_space c \<and> c \<noteq> u16 CHR ''?''"
    then obtain c where c: "c \<in> set q" "clean c" by (auto simp: clean_def)
    then have q: "q \<noteq> []" "trim q \<noteq> []"
      using trim_keeps[of c q] by (auto simp: clean_def)
    show "extractTopic rt q \<noteq> []"
    proof (cases "try_patterns rt patterns (trim q)")
      case None
      with q c assms show ?thesis
        by (simp add: extractTopic_def Let_def keyword_fallback_nonempty)
    next
      case (Some r)
      then have "3 \<le> length r" using assms try_patterns_result by blast
      with Some q show ?thesis
        by (auto simp: extractTopic_def Let_def)
    qed
  qed
qed

text \<open>
  The amended claim C1 at the query \<open>what is AI?\<close>, with the case conversions of ASCII,
  whose \<open>toUpperCase\<close> has the property used.
\<close>

theorem extractTopic_key_shape_witness:
  "upper_keeps_clean ascii_runtime \<and>
   (\<exists>c \<in> set (lit ''what is AI?''). \<not> is_space c \<and> c \<noteq> u16 CHR ''?'') \<and>
   extractTopic ascii_runtime (lit ''what is AI?'') \<noteq> [] \<and>
   list_all (\<lambda>c. \<not> is_space c \<and> c \<noteq> u16 CHR ''?'')
     (extractTopic ascii_runtime (lit ''what is AI?''))"
proof -
  have h: "\<exists>c \<in> set (lit ''what is AI?''). \<not> is_space c \<and> c \<noteq> u16 CHR ''?''"
    by (simp add: is_space_def lit_def u16_def)
  with extractTopic_key_shape[OF upper_keeps_clean_ascii, of "lit ''what is AI?''"]
    upper_keeps_clean_ascii
  show ?thesis
    unfolding list_all_iff by blast
qed

text \<open>
  Claim C1 as stated fails: the query \<open>?\<close> is neither empty nor white space only,
  no pattern matches it, the keyword fallback finds no word in it, and the normalized
  original query, its question mark removed, is the empty key. The query is ASCII, and
  the case conversions are those of ASCII.
\<close>

theorem extractTopic_qmark_counterexample:
  "lit ''?'' \<noteq> [] \<and> \<not> list_all is_space (lit ''?'') \<and>
   extractTopic ascii_runtime (lit ''?'') = []"
  by code_simp

subsection \<open>ASCII queries\<close>

text \<open>
  On an ASCII query the case conversions are applied to ASCII strings only, so the key does
  not depend on what they do elsewhere.
\<close>

lemma is_ascii_iff: "is_ascii s = (\<forall>c \<in> set s. c < 128)"
  by (simp add: is_ascii_def list_all_iff)

lemma is_ascii_subset: "is_ascii s \<Longrightarrow> set r \<subseteq> set s \<Longrightarrow> is_ascii r"
  by (auto simp: is_ascii_iff)

lemma conform_lower:
  "ascii_conform rt \<Longrightarrow> is_ascii s \<Longrightarrow> toLowerCase rt s = toLowerCase ascii_runtime s"
  by (simp add: ascii_conform_def ascii_runtime_def)

lemma conform_upper:
  "ascii_conform rt \<Longrightarrow> is_ascii s \<Longrightarrow> toUpperCase rt s = toUpperCase ascii_runtime s"
  by (simp add: ascii_conform_def ascii_runtime_def)

lemma lower_ascii: "is_ascii s \<Longrightarrow> is_ascii (toLowerCase ascii_runtime s)"
  by (auto simp: is_ascii_iff ascii_runtime_def ascii_lower_def is_upper_def)

lemma capitalize_ascii:
  assumes "ascii_conform rt" "is_ascii w"
  shows "capitalize rt w = capitalize ascii_runtime w"
proof -
  from assms(2) have "is_ascii (take 1 w)"
    by (rule is_ascii_subset) (rule set_take_subset)
  with assms(1) show ?thesis by (simp add: capitalize_def conform_upper)
qed

lemma normalizeTitle_ascii:
  assumes "ascii_conform rt" "is_ascii p"
  shows "normalizeTitle rt p = normalizeTitle ascii_runtime p"
proof -
  let ?s = "remove_qmarks (trim p)"
  have "set ?s \<subseteq> set p" using trim_subset by (auto simp: remove_qmarks_def)
  with assms(2) have s: "is_ascii ?s" by (rule is_ascii_subset)
  have "capitalize rt w = capitalize ascii_runtime w" if "w \<in> set (tokens ?s)" for w
  proof -
    from that have "set w \<subseteq> set ?s" by (rule tokens_subset)
    with s have "is_ascii w" by (rule is_ascii_subset)
    with assms(1) show ?thesis by (rule capitalize_ascii)
  qed
  then have "map (capitalize rt) (tokens ?s) = map (capitalize ascii_runtime) (tokens ?s)"
    by (intro map_cong refl)
  then show ?thesis by (simp only: normalizeTitle_def)
qed

lemma subject_phrase_ascii:
  assumes "ascii_conform rt" "is_ascii subj"
  shows "subject_phrase rt subj = subject_phrase ascii_runtime subj"
proof -
  have "set (trim (remove_qmarks subj)) \<subseteq> set subj"
    using trim_subset[of "remove_qmarks subj"] by (auto simp: remove_qmarks_def)
  with assms(2) have "is_ascii (trim (remove_qmarks subj))" by (rule is_ascii_subset)
  with assms(1) show ?thesis by (simp add: subject_phrase_def conform_lower)
qed

lemma is_ascii_join:
  "is_ascii sep \<Longrightarrow> \<forall>x \<in> set xs. is_ascii x \<Longrightarrow> is_ascii (join sep xs)"
  using set_join_subset[of sep xs] by (fastforce simp: is_ascii_iff)

lemma slice_last2_subset: "set (slice_last2 xs) \<subseteq> set xs"
  unfolding slice_last2_def by (rule set_drop_subset)

lemma is_ascii_space: "is_ascii (lit '' '')"
  by (simp add: is_ascii_def lit_def u16_def)

lemma subject_phrase_is_ascii:
  assumes "is_ascii subj"
  shows "is_ascii (subject_phrase ascii_runtime subj)"
proof -
  let ?p = "trim (remove_qmarks subj)"
  have "set ?p \<subseteq> set subj"
    using trim_subset[of "remove_qmarks subj"] by (auto simp: remove_qmarks_def)
  with assms have p: "is_ascii ?p" by (rule is_ascii_subset)
  then have l: "is_ascii (toLowerCase ascii_runtime ?p)" by (rule lower_ascii)
  have "is_ascii w" if "w \<in> set (tokens (toLowerCase ascii_runtime ?p))" for w
    using that l tokens_subset is_ascii_subset by blast
  then have "is_ascii (join (lit '' '') (slice_last2 ks))"
    if "set ks \<subseteq> set (tokens (toLowerCase ascii_runtime ?p))" for ks
    using that slice_last2_subset[of ks] by (intro is_ascii_join is_ascii_space) blast
  then show ?thesis
    using p by (simp add: subject_phrase_def Let_def)
qed

lemma first_some_Some: "first_some f xs = Some y \<Longrightarrow> \<exists>x \<in> set xs. f x = Some y"
  by (induction xs) (auto split: option.splits)

lemma lit_ci_rest: "lit_ci p s = Some r \<Longrightarrow> set r \<subseteq> set s"
  by (induction p s rule: lit_ci.induct) (auto split: if_splits)

lemma alt_ci_rest: "r \<in> set (alt_ci ws s) \<Longrightarrow> set r \<subseteq> set s"
  unfolding alt_ci_def
  by (induction ws) (auto simp: List.map_filter_simps dest: lit_ci_rest split: option.splits)

lemma ws_plus_rest: "r \<in> set (ws_plus s) \<Longrightarrow> set r \<subseteq> set s"
  by (auto simp: ws_plus_def dest: in_set_dropD)

lemma dot_plus_end_rest: "dot_plus_end s = Some r \<Longrightarrow> r = s"
  by (simp add: dot_plus_end_def split: if_splits)

lemma tail_pattern_rest:
  assumes "first_some (\<lambda>r1. first_some dot_plus_end (ws_plus r1)) (alt_ci ws s) = Some subj"
  shows "set subj \<subseteq> set s"
proof -
  from assms obtain r1 where r1: "r1 \<in> set (alt_ci ws s)"
    "first_some dot_plus_end (ws_plus r1) = Some subj"
    by (blast dest: first_some_Some)
  then obtain r2 where "r2 \<in> set (ws_plus r1)" "dot_plus_end r2 = Some subj"
    by (blast dest: first_some_Some)
  then have "set subj \<subseteq> set r1" using ws_plus_rest dot_plus_end_rest by blast
  with r1(1) show ?thesis using alt_ci_rest by blast
qed

lemma pattern_wh_rest:
  assumes "pattern_wh s = Some subj"
  shows "set subj \<subseteq> set s"
proof -
  from assms obtain r1 where r1: "r1 \<in> set (alt_ci (map lit [''who'', ''what'', ''where'', ''when'', ''why'', ''how'']) s)"
    and a: "first_some (\<lambda>r2.
         first_some (\<lambda>r3.
           first_some dot_plus_end (ws_plus r3))
           (alt_ci (map lit [''is'', ''was'', ''are'', ''were'']) r2))
         (ws_plus r1) = Some subj"
    unfolding pattern_wh_def by (blast dest: first_some_Some)
  from a obtain r2 where r2: "r2 \<in> set (ws_plus r1)"
    and b: "first_some (\<lambda>r3. first_some dot_plus_end (ws_plus r3))
           (alt_ci (map lit [''is'', ''was'', ''are'', ''were'']) r2) = Some subj"
    by (blast dest: first_some_Some)
  from b have "set subj \<subseteq> set r2" by (rule tail_pattern_rest)
  also from r2 have "set r2 \<subseteq> set r1" by (rule ws_plus_rest)
  also from r1 have "set r1 \<subseteq> set s" by (rule alt_ci_rest)
  finally show ?thesis .
qed

lemma patterns_rest:
  assumes "p \<in> set patterns" "p s = Some subj"
  shows "set subj \<subseteq> set s"
proof -
  from assms(1) consider "p = pattern_wh" | "p = pattern_tell" | "p = pattern_overview"
    by (auto simp: patterns_def)
  then show ?thesis
  proof cases
    case 1
    with assms(2) show ?thesis by (simp add: pattern_wh_rest)
  next
    case 2
    with assms(2) show ?thesis
      unfolding pattern_tell_def by (simp add: tail_pattern_rest)
  next
    case 3
    with assms(2) show ?thesis
      unfolding pattern_overview_def by (simp add: tail_pattern_rest)
  qed
qed

lemma try_patterns_ascii:
  assumes "ascii_conform rt" "is_ascii t"
    and "\<forall>p \<in> set ps. \<forall>subj. p t = Some subj \<longrightarrow> set subj \<subseteq> set t"
  shows "try_patterns rt ps t = try_patterns ascii_runtime ps t"
  using assms(3)
proof (induction ps)
  case Nil
  then show ?case by simp
next
  case (Cons p ps)
  then have ih: "try_patterns rt ps t = try_patterns ascii_runtime ps t" by simp
  show ?case
  proof (cases "p t")
    case None
    with ih show ?thesis by simp
  next
    case (Some subj)
    with Cons.prems have "set subj \<subseteq> set t" by simp
    with assms(2) have subj: "is_ascii subj" by (rule is_ascii_subset)
    with assms(1) have s: "subject_phrase rt subj = subject_phrase ascii_runtime subj"
      by (rule subject_phrase_ascii)
    from subj have "is_ascii (subject_phrase ascii_runtime subj)"
      by (rule subject_phrase_is_ascii)
    with assms(1) have "normalizeTitle rt (subject_phrase ascii_runtime subj) =
        normalizeTitle ascii_runtime (subject_phrase ascii_runtime subj)"
      by (rule normalizeTitle_ascii)
    with Some ih s show ?thesis by (simp add: Let_def)
  qed
qed

lemma keyword_candidate_ascii: "w \<in> set (keyword_candidate lower) \<Longrightarrow> is_ascii w"
proof -
  assume "w \<in> set (keyword_candidate lower)"
  then have w: "w \<in> set (tokens (filter (\<lambda>c. is_word_char c \<or> is_space c) lower))"
    using keyword_candidate_subset by blast
  have "c < 128" if c: "c \<in> set w" for c
  proof -
    from w c have "\<not> is_space c" by (rule tokens_no_space)
    moreover from w c have "c \<in> set (filter (\<lambda>c. is_word_char c \<or> is_space c) lower)"
      using tokens_subset by blast
    ultimately have "is_word_char c" by simp
    then show ?thesis by (rule is_word_char_ascii)
  qed
  then show ?thesis by (simp add: is_ascii_iff)
qed

lemma keyword_fallback_ascii:
  assumes "ascii_conform rt" "is_ascii q"
  shows "keyword_fallback rt q lower = keyword_fallback ascii_runtime q lower"
proof -
  have "is_ascii (join (lit '' '') (keyword_candidate lower))"
    by (intro is_ascii_join is_ascii_space) (simp add: keyword_candidate_ascii)
  with assms show ?thesis
    by (simp add: keyword_fallback_def Let_def normalizeTitle_ascii)
qed

lemma extractTopic_ascii:
  assumes "ascii_conform rt" "is_ascii q"
  shows "extractTopic rt q = extractTopic ascii_runtime q"
proof -
  from assms(2) have t: "is_ascii (trim q)"
    by (rule is_ascii_subset) (rule trim_subset)
  have "try_patterns rt patterns (trim q) = try_patterns ascii_runtime patterns (trim q)"
    using assms(1) t by (rule try_patterns_ascii) (blast dest: patterns_rest)
  moreover have "toLowerCase rt (trim q) = toLowerCase ascii_runtime (trim q)"
    using assms(1) t by (rule conform_lower)
  ultimately show ?thesis
    using assms
    by (simp add: extractTopic_def Let_def keyword_fallback_ascii split: option.splits)
qed

lemma mahatma_gandhi:
  "is_ascii (lit ''who is mahatma gandhi'') \<and>
   extractTopic ascii_runtime (lit ''who is mahatma gandhi'') = lit ''Mahatma_Gandhi''"
  by code_simp

lemma elantra:
  "is_ascii (lit ''what is the cost of a new elantra'') \<and>
   extractTopic ascii_runtime (lit ''what is the cost of a new elantra'') = lit ''Elantra''"
  by code_simp

text \<open>
  Claim C8. The query \<open>who is mahatma gandhi\<close> gives the key \<open>Mahatma_Gandhi\<close>, and
  the query \<open>what is the cost of a new elantra\<close> gives the key \<open>Elantra\<close>, for every
  runtime whose case conversions are those of ASCII on ASCII strings.
\<close>

theorem extractTopic_examples:
  assumes "ascii_conform rt"
  shows "extractTopic rt (lit ''who is mahatma gandhi'') = lit ''Mahatma_Gandhi'' \<and>
         extractTopic rt (lit ''what is the cost of a new elantra'') = lit ''Elantra''"
  using extractTopic_ascii[OF assms] mahatma_gandhi elantra by simp

text \<open>Claim C8 with the case conversions of ASCII.\<close>

theorem extractTopic_examples_witness:
  "ascii_conform ascii_runtime \<and>
   extractTopic ascii_runtime (lit ''who is mahatma gandhi'') = lit ''Mahatma_Gandhi'' \<and>
   extractTopic ascii_runtime (lit ''what is the cost of a new elantra'') = lit ''Elantra''"
  using extractTopic_examples[OF ascii_conform_ascii] ascii_conform_ascii by blast

subsection \<open>A pattern whose key is too short\<close>

lemma try_patterns_short:
  assumes "\<forall>p \<in> set ps. \<forall>rawTopic. p t = Some rawTopic \<longrightarrow>
             length (normalizeTitle rt (subject_phrase rt rawTopic)) < 3"
  shows "try_patterns rt ps t = None"
  using assms by (induction ps) (auto simp: Let_def split: option.splits)

text \<open>
  Claim C7, as amended. For every query that is not white space only and for which every
  pattern that matches gives a subject whose normalized key has fewer than three
  characters (code units), \<open>extractTopic\<close> falls through to the keyword fallback: it
  returns the normalization of the last (at most two) keyword candidates when their join
  with \<open>_\<close> has at least three characters, and the normalization of the original query
  only otherwise. This holds for every pair of case conversions.
\<close>

theorem short_pattern_key_falls_through:
  assumes "trim q \<noteq> []"
    and "\<forall>p \<in> set patterns. \<forall>rawTopic. p (trim q) = Some rawTopic \<longrightarrow>
           length (normalizeTitle rt (subject_phrase rt rawTopic)) < 3"
  shows "extractTopic rt q =
           (let candidate = keyword_candidate (toLowerCase rt (trim q)) in
            if 3 \<le> length (join (lit ''_'') candidate)
            then normalizeTitle rt (join (lit '' '') candidate)
            else normalizeTitle rt q)"
proof -
  from assms(2) have "try_patterns rt patterns (trim q) = None"
    by (rule try_patterns_short)
  moreover from assms(1) have "q \<noteq> []" by (auto simp: trim_def)
  ultimately show ?thesis
    using assms(1) by (simp add: extractTopic_def keyword_fallback_def Let_def)
qed

text \<open>
  The amended claim C7 at the query \<open>who is a b\<close>, whose subject \<open>a b\<close> gives the key
  \<open>B\<close>, with the case conversions of ASCII.
\<close>

theorem short_pattern_key_falls_through_witness:
  "trim (lit ''who is a b'') \<noteq> [] \<and>
   pattern_wh (trim (lit ''who is a b'')) = Some (lit ''a b'') \<and>
   pattern_tell (trim (lit ''who is a b'')) = None \<and>
   pattern_overview (trim (lit ''who is a b'')) = None \<and>
   length (normalizeTitle ascii_runtime (subject_phrase ascii_runtime (lit ''a b''))) < 3 \<and>
   extractTopic ascii_runtime (lit ''who is a b'') = lit ''Who_B''"
proof -
  let ?q = "lit ''who is a b''"
  have t: "trim ?q = ?q" by code_simp
  have p1: "pattern_wh ?q = Some (lit ''a b'')" by code_simp
  have p2: "pattern_tell ?q = None" by code_simp
  have p3: "pattern_overview ?q = None" by code_simp
  have n: "length (normalizeTitle ascii_runtime (subject_phrase ascii_runtime (lit ''a b''))) < 3"
    by code_simp
  have ne: "?q \<noteq> []" by (simp add: lit_def)
  have h1: "trim ?q \<noteq> []" using ne by (simp add: t)
  have h2: "\<forall>p \<in> set patterns. \<forall>rawTopic. p (trim ?q) = Some rawTopic \<longrightarrow>
              length (normalizeTitle ascii_runtime (subject_phrase ascii_runtime rawTopic)) < 3"
    using p1 p2 p3 n by (simp add: t patterns_def)
  have k: "(let candidate = keyword_candidate (toLowerCase ascii_runtime (trim ?q)) in
            if 3 \<le> length (join (lit ''_'') candidate)
            then normalizeTitle ascii_runtime (join (lit '' '') candidate)
            else normalizeTitle ascii_runtime ?q) = lit ''Who_B''"
    by code_simp
  from short_pattern_key_falls_through[OF h1 h2] k
  have "extractTopic ascii_runtime ?q = lit ''Who_B''" by simp
  with h1 p1 p2 p3 n t show ?thesis by simp
qed

text \<open>
  Claim C7 as stated fails: for the query \<open>who is a b\<close> the first pattern gives the
  subject \<open>a b\<close>, whose key \<open>B\<close> is too short, and the result is the key \<open>Who_B\<close> of
  the keyword fallback, not the normalized original query \<open>Who_Is_A_B\<close>.
\<close>

theorem short_pattern_key_counterexample:
  "pattern_wh (trim (lit ''who is a b'')) = Some (lit ''a b'') \<and>
   normalizeTitle ascii_runtime (subject_phrase ascii_runtime (lit ''a b'')) = lit ''B'' \<and>
   extractTopic ascii_runtime (lit ''who is a b'') = lit ''Who_B'' \<and>
   normalizeTitle ascii_runtime (lit ''who is a b'') = lit ''Who_Is_A_B''"
  by code_simp

section \<open>Properties of a fetch\<close>

lemma lit_not_Nil: "lit (c # s) @ r \<noteq> []"
  by (simp add: lit_def)

lemma fetch_catch_shape:
  "\<not> ok (fetch_catch t e) \<and> summary (fetch_catch t e) = Null \<and> url (fetch_catch t e) = Null \<and>
   (\<exists>m. error (fetch_catch t e) = Val m \<and> m \<noteq> [])"
  by (cases e) (simp_all add: fetch_catch_def Let_def lit_def)

lemma fetch_try_ok: "fetch_try get t = Inr r \<Longrightarrow> ok r"
  by (auto simp: fetch_try_def split: sum.splits nullable.splits option.splits)

text \<open>
  Claim C3, as amended. \<open>fetchWikiSummary\<close> returns a fetch result for every outcome of
  the outbound call. A result that is not \<open>ok\<close> has the summary \<open>null\<close>, the URL
  \<open>null\<close> and a non-empty error message, and every failure of the call, as well as a
  key that cannot be encoded, gives such a result. A result that is \<open>ok\<close> carries as
  summary the field \<open>extract\<close> of the response body and as URL the page of
  \<open>content_urls.desktop\<close> (the page of the topic when the body has no \<open>content_urls\<close>):
  both are present whenever the body supplies them.
\<close>

theorem fetchWikiSummary_result:
  "(\<not> ok (fetchWikiSummary get t) \<longrightarrow>
      summary (fetchWikiSummary get t) = Null \<and> url (fetchWikiSummary get t) = Null \<and>
      (\<exists>m. error (fetchWikiSummary get t) = Val m \<and> m \<noteq> [])) \<and>
   (encodeURIComponent t = None \<or>
    (\<exists>encoded e. encodeURIComponent t = Some encoded \<and> get (WIKI_API_BASE @ encoded) = Inl e) \<longrightarrow>
      \<not> ok (fetchWikiSummary get t)) \<and>
   (ok (fetchWikiSummary get t) \<longrightarrow>
      (\<exists>encoded data. encodeURIComponent t = Some encoded \<and>
         get (WIKI_API_BASE @ encoded) = Inr (Val data) \<and>
         summary (fetchWikiSummary get t) = data_extract data \<and>
         page_url data t = Inr (url (fetchWikiSummary get t)))) \<and>
   (\<forall>encoded data s u. encodeURIComponent t = Some encoded \<and>
        get (WIKI_API_BASE @ encoded) = Inr (Val data) \<and>
        data_extract data = Val s \<and> page_url data t = Inr (Val u) \<longrightarrow>
      ok (fetchWikiSummary get t) \<and> summary (fetchWikiSummary get t) = Val s \<and>
      url (fetchWikiSummary get t) = Val u)"
proof (intro conjI)
  show "\<not> ok (fetchWikiSummary get t) \<longrightarrow>
      summary (fetchWikiSummary get t) = Null \<and> url (fetchWikiSummary get t) = Null \<and>
      (\<exists>m. error (fetchWikiSummary get t) = Val m \<and> m \<noteq> [])"
  proof (cases "fetch_try get t")
    case (Inl e)
    then show ?thesis
      using fetch_catch_shape[of t e] by (simp add: fetchWikiSummary_def)
  next
    case (Inr r)
    then show ?thesis
      using fetch_try_ok[OF Inr] by (simp add: fetchWikiSummary_def)
  qed
next
  show "encodeURIComponent t = None \<or>
    (\<exists>encoded e. encodeURIComponent t = Some encoded \<and> get (WIKI_API_BASE @ encoded) = Inl e) \<longrightarrow>
      \<not> ok (fetchWikiSummary get t)"
    using fetch_catch_shape
    by (auto simp: fetchWikiSummary_def fetch_try_def)
next
  show "ok (fetchWikiSummary get t) \<longrightarrow>
      (\<exists>encoded data. encodeURIComponent t = Some encoded \<and>
         get (WIKI_API_BASE @ encoded) = Inr (Val data) \<and>
         summary (fetchWikiSummary get t) = data_extract data \<and>
         page_url data t = Inr (url (fetchWikiSummary get t)))"
  proof (cases "fetch_try get t")
    case (Inl e)
    then show ?thesis
      using fetch_catch_shape[of t e] by (simp add: fetchWikiSummary_def)
  next
    case (Inr r)
    then show ?thesis
      by (auto simp: fetchWikiSummary_def fetch_try_def
          split: sum.splits nullable.splits option.splits)
  qed
next
  show "\<forall>encoded data s u. encodeURIComponent t = Some encoded \<and>
        get (WIKI_API_BASE @ encoded) = Inr (Val data) \<and>
        data_extract data = Val s \<and> page_url data t = Inr (Val u) \<longrightarrow>
      ok (fetchWikiSummary get t) \<and> summary (fetchWikiSummary get t) = Val s \<and>
      url (fetchWikiSummary get t) = Val u"
    by (auto simp: fetchWikiSummary_def fetch_try_def)
qed

text \<open>
  The amended claim C3 at a call that fails with the status 404 and at a call that
  succeeds with a body in the documented format.
\<close>

theorem fetchWikiSummary_result_witness:
  "encodeURIComponent (lit ''Rome'') = Some (lit ''Rome'') \<and>
   \<not> ok (fetchWikiSummary (\<lambda>u. Inl (HttpStatus 404)) (lit ''Rome'')) \<and>
   summary (fetchWikiSummary (\<lambda>u. Inl (HttpStatus 404)) (lit ''Rome'')) = Null \<and>
   url (fetchWikiSummary (\<lambda>u. Inl (HttpStatus 404)) (lit ''Rome'')) = Null \<and>
   error (fetchWikiSummary (\<lambda>u. Inl (HttpStatus 404)) (lit ''Rome'')) =
     Val (lit ''Topic not found on Wikipedia (HTTP 404).'') \<and>
   data_extract rome = Val (lit ''Rome is the capital city of Italy.'') \<and>
   page_url rome (lit ''Rome'') = Inr (Val (lit ''https://en.wikipedia.org/wiki/Rome'')) \<and>
   ok (fetchWikiSummary (\<lambda>u. Inr (Val rome)) (lit ''Rome'')) \<and>
   summary (fetchWikiSummary (\<lambda>u. Inr (Val rome)) (lit ''Rome'')) =
     Val (lit ''Rome is the capital city of Italy.'') \<and>
   url (fetchWikiSummary (\<lambda>u. Inr (Val rome)) (lit ''Rome'')) =
     Val (lit ''https://en.wikipedia.org/wiki/Rome'')"
proof -
  let ?g1 = "\<lambda>u::jstring. Inl (HttpStatus 404) :: fetch_error + wiki_data nullable"
  let ?g2 = "\<lambda>u::jstring. Inr (Val rome) :: fetch_error + wiki_data nullable"
  let ?t = "lit ''Rome''"
  have enc: "encodeURIComponent ?t = Some ?t" by code_simp
  then have e: "\<exists>encoded e. encodeURIComponent ?t = Some encoded \<and>
      ?g1 (WIKI_API_BASE @ encoded) = Inl e" by simp
  with fetchWikiSummary_result[of ?g1 ?t]
  have 1: "\<not> ok (fetchWikiSummary ?g1 ?t)" by blast
  with fetchWikiSummary_result[of ?g1 ?t]
  have 2: "summary (fetchWikiSummary ?g1 ?t) = Null \<and> url (fetchWikiSummary ?g1 ?t) = Null"
    by blast
  have 3: "error (fetchWikiSummary ?g1 ?t) = Val (lit ''Topic not found on Wikipedia (HTTP 404).'')"
    by code_simp
  have d: "data_extract rome = Val (lit ''Rome is the capital city of Italy.'')"
    "page_url rome ?t = Inr (Val (lit ''https://en.wikipedia.org/wiki/Rome''))"
    by (simp_all add: rome_def page_url_def)
  have "?g2 (WIKI_API_BASE @ ?t) = Inr (Val rome)" by simp
  with enc d fetchWikiSummary_result[of ?g2 ?t]
  have 4: "ok (fetchWikiSummary ?g2 ?t) \<and>
     summary (fetchWikiSummary ?g2 ?t) = Val (lit ''Rome is the capital city of Italy.'') \<and>
     url (fetchWikiSummary ?g2 ?t) = Val (lit ''https://en.wikipedia.org/wiki/Rome'')"
    by blast
  from enc 1 2 3 d 4 show ?thesis by blast
qed

text \<open>
  Claim C3 as stated fails: for a response whose body has a title and no field
  \<open>extract\<close> the result is \<open>ok\<close> and its summary is missing.
\<close>

theorem fetchWikiSummary_no_extract_counterexample:
  "ok (fetchWikiSummary (\<lambda>u. Inr (Val no_extract)) (lit ''Rome'')) \<and>
   summary (fetchWikiSummary (\<lambda>u. Inr (Val no_extract)) (lit ''Rome'')) = Undefined"
proof -
  have "encodeURIComponent (lit ''Rome'') = Some (lit ''Rome'')" by code_simp
  then show ?thesis
    by (simp add: fetchWikiSummary_def fetch_try_def page_url_def no_extract_def)
qed

lemma fetch_documented_body:
  "encodeURIComponent key = Some encoded \<Longrightarrow>
   fetchWikiSummary
     (\<lambda>url'. Inr (Val \<lparr> data_title = Val tt, data_extract = Val s,
        data_content_urls = Val \<lparr> desktop = Val \<lparr> page = Val u \<rparr> \<rparr>,
        data_pageid = pid, data_thumbnail = th \<rparr>)) key =
   \<lparr> topic = Val tt, source = lit ''wikipedia'', ok = True, summary = Val s, url = Val u,
     error = Undefined, raw = Val \<lparr> pageid = pid, thumbnail = or_null th \<rparr>,
     triedTopics = Undefined, errorSummary = Undefined \<rparr>"
  by (simp add: fetchWikiSummary_def fetch_try_def page_url_def)

section \<open>Properties of the analyzer\<close>

text \<open>
  Claim C4. For every fetch result that is not \<open>ok\<close>, and for every one whose summary
  is missing, \<open>null\<close> or empty, \<open>AnalysisAgent.run\<close> returns exactly the result without
  content, with the difficulty \<open>unknown\<close>, no key points and the advisory that no
  research content was found; and every result of the analyzer without content has the
  difficulty \<open>unknown\<close> and no key points.
\<close>

theorem analysis_no_content:
  "((\<not> ok r \<or> summary r = Undefined \<or> summary r = Null \<or> summary r = Val []) \<longrightarrow>
      AnalysisAgent_run rt r =
        \<lparr> hasContent = False, difficulty = Unknown, keyPoints = [],
          advisory = lit ''No research content was found to analyze.'' \<rparr>) \<and>
   (\<not> hasContent (AnalysisAgent_run rt r) \<longrightarrow>
      difficulty (AnalysisAgent_run rt r) = Unknown \<and> keyPoints (AnalysisAgent_run rt r) = [])"
  by (auto simp: AnalysisAgent_run_def no_content_analysis_def Let_def split: nullable.splits)

text \<open>Claim C4 at the fetch result of a failed call.\<close>

theorem analysis_no_content_witness:
  "\<not> ok (fetch_catch (lit ''X'') OtherError) \<and>
   AnalysisAgent_run ascii_runtime (fetch_catch (lit ''X'') OtherError) =
     \<lparr> hasContent = False, difficulty = Unknown, keyPoints = [],
       advisory = lit ''No research content was found to analyze.'' \<rparr> \<and>
   \<not> hasContent (AnalysisAgent_run ascii_runtime (fetch_catch (lit ''X'') OtherError)) \<and>
   difficulty (AnalysisAgent_run ascii_runtime (fetch_catch (lit ''X'') OtherError)) = Unknown \<and>
   keyPoints (AnalysisAgent_run ascii_runtime (fetch_catch (lit ''X'') OtherError)) = []"
proof -
  let ?r = "fetch_catch (lit ''X'') OtherError"
  have h: "\<not> ok ?r"
    by (simp add: fetch_catch_def)
  from analysis_no_content[of ?r ascii_runtime] h
  have a: "AnalysisAgent_run ascii_runtime ?r =
     \<lparr> hasContent = False, difficulty = Unknown, keyPoints = [],
       advisory = lit ''No research content was found to analyze.'' \<rparr>"
    by blast
  then have "\<not> hasContent (AnalysisAgent_run ascii_runtime ?r)"
    by simp
  with analysis_no_content[of ?r ascii_runtime] h a show ?thesis
    by blast
qed

text \<open>
  Claim C10. For every fetch result that is \<open>ok\<close> with a non-empty summary the analyzer
  reports content and at least one key point, and every result of the analyzer that
  reports content has a key point.
\<close>

theorem analysis_key_points_nonempty:
  "(ok r \<and> summary r = Val s \<and> s \<noteq> [] \<longrightarrow>
      hasContent (AnalysisAgent_run rt r) \<and> keyPoints (AnalysisAgent_run rt r) \<noteq> []) \<and>
   (hasContent (AnalysisAgent_run rt r) \<longrightarrow> keyPoints (AnalysisAgent_run rt r) \<noteq> [])"
  by (auto simp: AnalysisAgent_run_def no_content_analysis_def Let_def split: nullable.splits)

text \<open>
  Claim C10 at a fetch result with the summary \<open>Rome is a city.\<close>, which the fallback
  turns into the one key point.
\<close>

theorem analysis_key_points_nonempty_witness:
  "ok short_summary \<and> summary short_summary = Val (lit ''Rome is a city.'') \<and>
   lit ''Rome is a city.'' \<noteq> [] \<and>
   hasContent (AnalysisAgent_run ascii_runtime short_summary) \<and>
   keyPoints (AnalysisAgent_run ascii_runtime short_summary) \<noteq> []"
proof -
  have h: "ok short_summary \<and> summary short_summary = Val (lit ''Rome is a city.'') \<and>
           lit ''Rome is a city.'' \<noteq> []"
    by (simp add: short_summary_def lit_def)
  with analysis_key_points_nonempty[of short_summary "lit ''Rome is a city.''" ascii_runtime]
  show ?thesis by blast
qed

subsection \<open>The key points of a summary\<close>

lemma sentence_at_split: "sentence_at s = Some (m, r) \<Longrightarrow> s = m @ r"
proof -
  assume a: "sentence_at s = Some (m, r)"
  let ?P = "\<lambda>c. \<not> is_terminator c"
  from a obtain t r' where d: "dropWhile ?P s = t # r'"
    and m: "m = takeWhile ?P s @ t # takeWhile is_space r'"
    and r: "r = dropWhile is_space r'"
    by (auto simp: sentence_at_def Let_def split: list.splits if_splits)
  have "s = takeWhile ?P s @ dropWhile ?P s" by simp
  also have "\<dots> = takeWhile ?P s @ t # (takeWhile is_space r' @ dropWhile is_space r')"
    using d by simp
  finally show ?thesis using m r by simp
qed

lemma match_sentences_parts:
  "\<exists>parts. concat parts = s \<and> subseq (match_sentences s) parts"
proof (induction s rule: match_sentences.induct)
  case 1
  have "concat [] = ([] :: jstring) \<and> subseq (match_sentences []) []" by simp
  then show ?case by blast
next
  case (2 c cs)
  show ?case
  proof (cases "sentence_at (c # cs)")
    case None
    with 2 obtain parts where p: "concat parts = cs" "subseq (match_sentences cs) parts"
      by auto
    then have "concat ([c] # parts) = c # cs \<and> subseq (match_sentences (c # cs)) ([c] # parts)"
      using None by (auto intro: list_emb_Cons)
    then show ?thesis by blast
  next
    case (Some mr)
    obtain m r where mr: "mr = (m, r)" by (cases mr)
    have "\<exists>parts. concat parts = r \<and> subseq (match_sentences r) parts"
      using "2.IH"(2) Some mr by blast
    then obtain parts where p: "concat parts = r" "subseq (match_sentences r) parts"
      by blast
    have ms: "match_sentences (c # cs) = m # match_sentences r"
      using Some mr by simp
    from Some mr have "c # cs = m @ r" using sentence_at_split by blast
    with p(1) have "concat (m # parts) = c # cs" by simp
    moreover have "subseq (match_sentences (c # cs)) (m # parts)"
      unfolding ms using p(2) by simp
    ultimately show ?thesis by blast
  qed
qed

lemma sentences_of_parts:
  "\<exists>parts. concat parts = s \<and> subseq (sentences_of s) parts"
proof (cases "match_sentences s = []")
  case True
  then have "concat [s] = s \<and> subseq (sentences_of s) [s]"
    by (simp add: sentences_of_def)
  then show ?thesis by blast
next
  case False
  then show ?thesis
    using match_sentences_parts[of s] by (simp add: sentences_of_def)
qed

lemma dropWhile_self: "xs = [] \<or> \<not> P (hd xs) \<Longrightarrow> dropWhile P xs = xs"
  by (cases xs) auto

lemma last_dropWhile: "dropWhile P xs \<noteq> [] \<Longrightarrow> last (dropWhile P xs) = last xs"
  by (metis last_appendR takeWhile_dropWhile_id)

lemma trim_idem: "trim (trim s) = trim s"
proof -
  let ?d = "dropWhile is_space s"
  let ?e = "dropWhile is_space (rev ?d)"
  have "rev ?e = [] \<or> \<not> is_space (hd (rev ?e))"
  proof (cases "?e = []")
    case True
    then show ?thesis by simp
  next
    case False
    have d: "?d \<noteq> []"
    proof
      assume "?d = []"
      then have "?e = []" by (simp only: rev.simps dropWhile.simps)
      with False show False by blast
    qed
    have "hd (rev ?e) = last ?e" using False by (simp add: hd_rev)
    also have "\<dots> = last (rev ?d)" using False by (rule last_dropWhile)
    also have "\<dots> = hd ?d" using d by (simp add: last_rev)
    finally show ?thesis using d hd_dropWhile by metis
  qed
  then have "dropWhile is_space (rev ?e) = rev ?e" by (rule dropWhile_self)
  then show ?thesis by (simp add: trim_def)
qed

text \<open>
  Claim C6. For every fetch result that is \<open>ok\<close> with a non-empty summary, either no
  candidate survives the filter and the key points are the one-element list of the full
  summary, or the key points are the first five (at most) of the surviving candidates:
  there are at most five, each has a trimmed length of more than twenty, and they keep
  the order of the sentences in the summary, being a subsequence of the trimmed pieces of
  a division of the summary into consecutive pieces. Lengths are those of the source, in
  code units, and white space is that of \<open>trim\<close> and \<open>\s\<close>.
\<close>

theorem key_points_shape:
  assumes "ok r" "summary r = Val s" "s \<noteq> []"
  shows "(filter (\<lambda>p. 20 < length p) (map trim (sentences_of s)) = [] \<and>
            keyPoints (AnalysisAgent_run rt r) = [s]) \<or>
         (filter (\<lambda>p. 20 < length p) (map trim (sentences_of s)) \<noteq> [] \<and>
            keyPoints (AnalysisAgent_run rt r) =
              take 5 (filter (\<lambda>p. 20 < length p) (map trim (sentences_of s))) \<and>
            length (keyPoints (AnalysisAgent_run rt r)) \<le> 5 \<and>
            (\<forall>p \<in> set (keyPoints (AnalysisAgent_run rt r)). 20 < length (trim p)) \<and>
            (\<exists>parts. concat parts = s \<and>
               subseq (keyPoints (AnalysisAgent_run rt r)) (map trim parts)))"
proof (cases "filter (\<lambda>p. 20 < length p) (map trim (sentences_of s)) = []")
  case True
  with assms show ?thesis
    by (simp add: AnalysisAgent_run_def extractKeyPoints_def Let_def)
next
  case False
  let ?c = "filter (\<lambda>p. 20 < length p) (map trim (sentences_of s))"
  let ?kp = "keyPoints (AnalysisAgent_run rt r)"
  from assms False have kp: "?kp = take 5 ?c"
    by (simp add: AnalysisAgent_run_def extractKeyPoints_def Let_def)
  then have len: "length ?kp \<le> 5" by simp
  have long: "20 < length (trim p)" if "p \<in> set ?kp" for p
  proof -
    from that kp have "p \<in> set ?c" by (auto dest: in_set_takeD)
    then obtain x where "p = trim x" "20 < length p" by auto
    then show ?thesis by (simp add: trim_idem)
  qed
  obtain parts where parts: "concat parts = s" "subseq (sentences_of s) parts"
    using sentences_of_parts by blast
  have "subseq ?kp ?c" unfolding kp by (rule prefix_imp_subseq) (rule take_is_prefix)
  also have "subseq ?c (map trim (sentences_of s))" by simp
  also have "subseq (map trim (sentences_of s)) (map trim parts)"
    using parts(2) by (rule subseq_map)
  finally have "subseq ?kp (map trim parts)" .
  with parts(1) have "\<exists>parts. concat parts = s \<and> subseq ?kp (map trim parts)" by blast
  with False kp len long show ?thesis by blast
qed

lemma ada_summary_key_points:
  "filter (\<lambda>p. 20 < length p) (map trim (sentences_of (join (lit '' '') ada_sentences))) =
     take 2 ada_sentences"
  by code_simp

lemma ada_key: "encodeURIComponent (lit ''Ada_Lovelace'') = Some (lit ''Ada_Lovelace'')"
  by code_simp

text \<open>
  Claim C6 at the fetch result for a summary of three sentences, the first two of which
  are its key points.
\<close>

theorem key_points_shape_witness:
  "ok (fetchWikiSummary (\<lambda>url'. Inr (Val (ada_body (join (lit '' '') ada_sentences))))
         (lit ''Ada_Lovelace'')) \<and>
   summary (fetchWikiSummary (\<lambda>url'. Inr (Val (ada_body (join (lit '' '') ada_sentences))))
         (lit ''Ada_Lovelace''))
     = Val (join (lit '' '') ada_sentences) \<and>
   join (lit '' '') ada_sentences \<noteq> [] \<and>
   length (keyPoints (AnalysisAgent_run ascii_runtime
     (fetchWikiSummary (\<lambda>url'. Inr (Val (ada_body (join (lit '' '') ada_sentences))))
         (lit ''Ada_Lovelace'')))) \<le> 5 \<and>
   list_all (\<lambda>p. 20 < length (trim p)) (keyPoints (AnalysisAgent_run ascii_runtime
     (fetchWikiSummary (\<lambda>url'. Inr (Val (ada_body (join (lit '' '') ada_sentences))))
         (lit ''Ada_Lovelace'')))) \<and>
   subseq (keyPoints (AnalysisAgent_run ascii_runtime
     (fetchWikiSummary (\<lambda>url'. Inr (Val (ada_body (join (lit '' '') ada_sentences))))
         (lit ''Ada_Lovelace''))))
     ada_sentences"
proof -
  let ?s = "join (lit '' '') ada_sentences"
  let ?r = "fetchWikiSummary (\<lambda>url'. Inr (Val (ada_body ?s))) (lit ''Ada_Lovelace'')"
  have h: "ok ?r" "summary ?r = Val ?s"
    by (simp_all add: ada_body_def fetch_documented_body[OF ada_key])
  have ne: "?s \<noteq> []" by (simp add: ada_sentences_def lit_def)
  note c = ada_summary_key_points
  then have c': "filter (\<lambda>p. 20 < length p) (map trim (sentences_of ?s)) \<noteq> []"
    by (simp add: ada_sentences_def)
  from key_points_shape[OF h ne, of ascii_runtime] c'
  have k: "keyPoints (AnalysisAgent_run ascii_runtime ?r) =
              take 5 (filter (\<lambda>p. 20 < length p) (map trim (sentences_of ?s)))"
    and l: "length (keyPoints (AnalysisAgent_run ascii_runtime ?r)) \<le> 5"
    and t: "\<forall>p \<in> set (keyPoints (AnalysisAgent_run ascii_runtime ?r)). 20 < length (trim p)"
    by blast+
  from k have "keyPoints (AnalysisAgent_run ascii_runtime ?r) = take 2 ada_sentences"
    unfolding c by (simp add: ada_sentences_def)
  then have "subseq (keyPoints (AnalysisAgent_run ascii_runtime ?r)) ada_sentences"
    by (simp add: prefix_imp_subseq take_is_prefix)
  with h ne l t show ?thesis
    unfolding list_all_iff by blast
qed

section \<open>Properties of the intent classifier\<close>

lemma str_includes_sublist: "str_includes s sub = sublist sub s"
  by (induction s) (auto simp: sublist_Cons_right)

lemma classifyIntent_ascii:
  "ascii_conform rt \<Longrightarrow> is_ascii q \<Longrightarrow> classifyIntent rt q h = classifyIntent ascii_runtime q h"
  by (simp add: classifyIntent_def conform_lower)

lemma learn_kubernetes:
  "is_ascii (lit ''how do I learn Kubernetes'') \<and>
   classifyIntent ascii_runtime (lit ''how do I learn Kubernetes'') True = GettingStarted"
  by code_simp

lemma python_vs_go:
  "is_ascii (lit ''Python vs Go'') \<and>
   classifyIntent ascii_runtime (lit ''Python vs Go'') True = Comparison"
  by code_simp

lemma about_rome:
  "is_ascii (lit ''tell me about Rome'') \<and>
   classifyIntent ascii_runtime (lit ''tell me about Rome'') True = Overview"
  by code_simp

text \<open>
  Claim C5. For every query and flag \<open>classifyIntent\<close> is the function of its two
  arguments that the rules of the specification describe, in their order of priority:
  without content the mode is \<open>no-content\<close> whatever the query is; else a lower-cased
  query that contains \<open>how to\<close>, \<open>how do i\<close>, \<open>get started\<close>, \<open>for beginners\<close> or
  \<open>learn\<close> gives \<open>getting-started\<close>; else one that contains \<open>compare\<close> or \<open>vs\<close>
  between two spaces gives \<open>comparison\<close>; else the mode is \<open>overview\<close>. This holds
  whatever \<open>toLowerCase\<close> does. The three example queries give \<open>getting-started\<close>,
  \<open>comparison\<close> and \<open>overview\<close> when \<open>toLowerCase\<close> is that of ASCII on ASCII strings.
\<close>

theorem classifyIntent_rule:
  "classifyIntent rt q h = classify_spec rt q h \<and>
   classifyIntent rt q False = NoContent \<and>
   (ascii_conform rt \<longrightarrow>
      classifyIntent rt (lit ''how do I learn Kubernetes'') True = GettingStarted \<and>
      classifyIntent rt (lit ''Python vs Go'') True = Comparison \<and>
      classifyIntent rt (lit ''tell me about Rome'') True = Overview)"
proof -
  have "classifyIntent rt q h = classify_spec rt q h"
    by (simp add: classifyIntent_def classify_spec_def Let_def str_includes_sublist)
  moreover have "classifyIntent rt q False = NoContent"
    by (simp add: classifyIntent_def)
  moreover have "classifyIntent rt (lit ''how do I learn Kubernetes'') True = GettingStarted"
    if "ascii_conform rt"
    using classifyIntent_ascii[OF that] learn_kubernetes by simp
  moreover have "classifyIntent rt (lit ''Python vs Go'') True = Comparison"
    if "ascii_conform rt"
    using classifyIntent_ascii[OF that] python_vs_go by simp
  moreover have "classifyIntent rt (lit ''tell me about Rome'') True = Overview"
    if "ascii_conform rt"
    using classifyIntent_ascii[OF that] about_rome by simp
  ultimately show ?thesis by blast
qed

text \<open>Claim C5 with the case conversions of ASCII.\<close>

theorem classifyIntent_rule_witness:
  "ascii_conform ascii_runtime \<and>
   classifyIntent ascii_runtime (lit ''how do I learn Kubernetes'') True = GettingStarted \<and>
   classifyIntent ascii_runtime (lit ''Python vs Go'') True = Comparison \<and>
   classifyIntent ascii_runtime (lit ''tell me about Rome'') True = Overview \<and>
   classifyIntent ascii_runtime (lit ''tell me about Rome'') False = NoContent"
  using classifyIntent_rule[of ascii_runtime "lit ''tell me about Rome''" False]
    ascii_conform_ascii
  by blast

section \<open>Properties of the coordinator\<close>

text \<open>
  Claim C2. For every query, whatever the three agents return or throw,
  \<open>orchestrate\<close> returns a well-formed response. When the analysis agent throws, the
  analysis of the response is the default result (no content, difficulty \<open>unknown\<close>, no
  key points, the advisory \<open>Analysis failed unexpectedly.\<close>), and the task agent is
  called with it: its result becomes the mode and the final answer of a normal response,
  and its failure the response of a failed planning stage.
\<close>

theorem orchestrate_never_throws:
  "well_formed_response (orchestrate researchAgent analysisAgent taskAgent now q) \<and>
   (\<forall>rr e. researchAgent q = Inr rr \<and> analysisAgent rr = Inl e \<longrightarrow>
      analysis (orchestrate researchAgent analysisAgent taskAgent now q) =
        Val \<lparr> hasContent = False, difficulty = Unknown, keyPoints = [],
              advisory = lit ''Analysis failed unexpectedly.'' \<rparr> \<and>
      (case taskAgent q rr failed_analysis of
         Inr tr \<Rightarrow>
           orchestrate researchAgent analysisAgent taskAgent now q =
             \<lparr> error_r = Undefined, errorMessage = Undefined, query_r = Val q,
               timestamp = Val now, research = Val rr, analysis = Val failed_analysis,
               task = mode tr, finalAnswer_r = finalAnswer tr \<rparr>
       | Inl e' \<Rightarrow>
           error_r (orchestrate researchAgent analysisAgent taskAgent now q) = Val True \<and>
           errorMessage (orchestrate researchAgent analysisAgent taskAgent now q) =
             Val (lit ''Task planning failed unexpectedly.'') \<and>
           research (orchestrate researchAgent analysisAgent taskAgent now q) = Val rr))"
proof (intro conjI allI impI)
  show "well_formed_response (orchestrate researchAgent analysisAgent taskAgent now q)"
    by (simp add: orchestrate_def well_formed_response_def Let_def lit_eq_Nil split: sum.splits)
next
  fix rr e assume "researchAgent q = Inr rr \<and> analysisAgent rr = Inl e"
  then show "analysis (orchestrate researchAgent analysisAgent taskAgent now q) =
        Val \<lparr> hasContent = False, difficulty = Unknown, keyPoints = [],
              advisory = lit ''Analysis failed unexpectedly.'' \<rparr>"
    by (simp add: orchestrate_def failed_analysis_def Let_def split: sum.splits)
next
  fix rr e assume "researchAgent q = Inr rr \<and> analysisAgent rr = Inl e"
  then show "(case taskAgent q rr failed_analysis of
         Inr tr \<Rightarrow>
           orchestrate researchAgent analysisAgent taskAgent now q =
             \<lparr> error_r = Undefined, errorMessage = Undefined, query_r = Val q,
               timestamp = Val now, research = Val rr, analysis = Val failed_analysis,
               task = mode tr, finalAnswer_r = finalAnswer tr \<rparr>
       | Inl e' \<Rightarrow>
           error_r (orchestrate researchAgent analysisAgent taskAgent now q) = Val True \<and>
           errorMessage (orchestrate researchAgent analysisAgent taskAgent now q) =
             Val (lit ''Task planning failed unexpectedly.'') \<and>
           research (orchestrate researchAgent analysisAgent taskAgent now q) = Val rr)"
    by (simp add: orchestrate_def Let_def split: sum.splits)
qed

text \<open>
  Claim C2 at a research agent that returns a failed fetch and an analysis agent that
  throws.
\<close>

theorem orchestrate_never_throws_witness:
  "(\<lambda>q. Inr (fetch_catch (lit ''X'') OtherError) :: exn + FetchResult) (lit ''q'') =
     Inr (fetch_catch (lit ''X'') OtherError) \<and>
   (\<lambda>r. Inl (Error (lit ''boom'')) :: exn + AnalysisResult) (fetch_catch (lit ''X'') OtherError) =
     Inl (Error (lit ''boom'')) \<and>
   well_formed_response
     (orchestrate (\<lambda>q. Inr (fetch_catch (lit ''X'') OtherError)) (\<lambda>r. Inl (Error (lit ''boom'')))
        (\<lambda>q r a. Inr (TaskAgent_run ascii_runtime q r a)) (lit ''now'') (lit ''q'')) \<and>
   analysis
     (orchestrate (\<lambda>q. Inr (fetch_catch (lit ''X'') OtherError)) (\<lambda>r. Inl (Error (lit ''boom'')))
        (\<lambda>q r a. Inr (TaskAgent_run ascii_runtime q r a)) (lit ''now'') (lit ''q'')) =
     Val \<lparr> hasContent = False, difficulty = Unknown, keyPoints = [],
           advisory = lit ''Analysis failed unexpectedly.'' \<rparr> \<and>
   task
     (orchestrate (\<lambda>q. Inr (fetch_catch (lit ''X'') OtherError)) (\<lambda>r. Inl (Error (lit ''boom'')))
        (\<lambda>q r a. Inr (TaskAgent_run ascii_runtime q r a)) (lit ''now'') (lit ''q'')) = NoContent"
proof -
  let ?ra = "\<lambda>q::jstring. Inr (fetch_catch (lit ''X'') OtherError) :: exn + FetchResult"
  let ?aa = "\<lambda>r::FetchResult. Inl (Error (lit ''boom'')) :: exn + AnalysisResult"
  let ?ta = "\<lambda>q r a. Inr (TaskAgent_run ascii_runtime q r a) :: exn + TaskResult"
  let ?rr = "fetch_catch (lit ''X'') OtherError"
  let ?o = "orchestrate ?ra ?aa ?ta (lit ''now'') (lit ''q'')"
  note t = orchestrate_never_throws[of ?ra ?aa ?ta "lit ''now''" "lit ''q''"]
  have h: "?ra (lit ''q'') = Inr ?rr \<and> ?aa ?rr = Inl (Error (lit ''boom''))" by simp
  from t have wf: "well_formed_response ?o" by blast
  from t h have an: "analysis ?o =
     Val \<lparr> hasContent = False, difficulty = Unknown, keyPoints = [],
           advisory = lit ''Analysis failed unexpectedly.'' \<rparr>" by blast
  from t h have "case ?ta (lit ''q'') ?rr failed_analysis of
         Inr tr \<Rightarrow>
           ?o =
             \<lparr> error_r = Undefined, errorMessage = Undefined, query_r = Val (lit ''q''),
               timestamp = Val (lit ''now''), research = Val ?rr, analysis = Val failed_analysis,
               task = mode tr, finalAnswer_r = finalAnswer tr \<rparr>
       | Inl e' \<Rightarrow>
           error_r ?o = Val True \<and>
           errorMessage ?o = Val (lit ''Task planning failed unexpectedly.'') \<and>
           research ?o = Val ?rr" by blast
  then have "task ?o = NoContent"
    by (simp add: TaskAgent_run_def classifyIntent_def failed_analysis_def)
  with wf an h show ?thesis by blast
qed

subsection \<open>A summary of three sentences\<close>

lemma sublist_eighth: "sublist x (a1 @ a2 @ a3 @ a4 @ a5 @ a6 @ a7 @ x @ rest)"
proof -
  have "a1 @ a2 @ a3 @ a4 @ a5 @ a6 @ a7 @ x @ rest = (a1 @ a2 @ a3 @ a4 @ a5 @ a6 @ a7) @ x @ rest"
    by simp
  then show ?thesis by (simp only: sublist_appendI)
qed

lemma generateAnswer_url: "sublist (show_str (url r)) (generateAnswer rt r a m)"
  unfolding generateAnswer_def Let_def by (rule sublist_eighth)

lemma generateAnswer_heading:
  "\<exists>rest. generateAnswer rt r a m = heading (show_str (topic r)) @ rest"
  unfolding generateAnswer_def Let_def by (simp only: append_assoc if_distrib[of "\<lambda>x. x @ _"] split: if_splits) blast

lemma ada_query:
  "is_ascii (lit ''who is Ada Lovelace'') \<and>
   extractTopic ascii_runtime (lit ''who is Ada Lovelace'') = lit ''Ada_Lovelace'' \<and>
   classifyIntent ascii_runtime (lit ''who is Ada Lovelace'') True = Overview"
  by code_simp

lemma ada_summary_shape:
  "length ada_sentences = 3 \<and>
   list_all (\<lambda>x. is_terminator (last x) \<and> list_all (\<lambda>c. \<not> is_terminator c) (butlast x) \<and>
                 20 < length x) ada_sentences \<and>
   is_ascii (join (lit '' '') ada_sentences)"
  by code_simp

lemma ada_summary_vocabulary:
  "list_all (\<lambda>w. \<not> str_includes (toLowerCase ascii_runtime (join (lit '' '') ada_sentences)) w)
     (ADVANCED_WORDS @ BEGINNER_WORDS)"
  by code_simp

lemma ada_summary_difficulty:
  "inferDifficulty ascii_runtime (join (lit '' '') ada_sentences) = Intermediate"
proof -
  from ada_summary_vocabulary
  have "filter (str_includes (toLowerCase ascii_runtime (join (lit '' '') ada_sentences)))
          ADVANCED_WORDS = []"
    "filter (str_includes (toLowerCase ascii_runtime (join (lit '' '') ada_sentences)))
          BEGINNER_WORDS = []"
    by (simp_all add: filter_empty_conv list_all_iff)
  then show ?thesis by (simp add: inferDifficulty_def Let_def)
qed

text \<open>
  Claim C9 at a summary of three sentences, separated by single spaces, each longer
  than twenty characters and without a term of the two vocabularies, under the title
  \<open>Ada Lovelace\<close>. For the query \<open>who is Ada Lovelace\<close> the response has the mode
  \<open>overview\<close>, the difficulty \<open>intermediate\<close> and a final answer with the heading of
  Ada Lovelace and the URL of the page, as the claim says, but two key points, not three:
  the third sentence ends the summary, no white space follows its full stop, and
  \<open>/[^.!?]+[.!?]\s+/g\<close> does not match it. The case conversions are those of ASCII on
  ASCII strings.
\<close>

theorem ada_lovelace_two_key_points:
  assumes "ascii_conform rt"
    and "resp = CoordinatorAgent_orchestrate rt
           (\<lambda>url'. Inr (Val (ada_body (join (lit '' '') ada_sentences))))
           now (lit ''who is Ada Lovelace'')"
  shows "task resp = Overview \<and>
         (\<exists>a. analysis resp = Val a \<and> difficulty a = Intermediate \<and>
              keyPoints a = take 2 ada_sentences \<and> length (keyPoints a) = 2) \<and>
         str_includes (finalAnswer_r resp) (lit ''## '' @ BOOKS @ lit '' Ada Lovelace'') \<and>
         str_includes (finalAnswer_r resp) (lit ''https://en.wikipedia.org/wiki/Ada_Lovelace'')"
proof -
  let ?q = "lit ''who is Ada Lovelace''"
  let ?s = "join (lit '' '') ada_sentences"
  let ?u = "lit ''https://en.wikipedia.org/wiki/Ada_Lovelace''"
  let ?r = "\<lparr> topic = Val (lit ''Ada Lovelace''), source = lit ''wikipedia'', ok = True,
     summary = Val ?s, url = Val ?u, error = Undefined,
     raw = Val \<lparr> pageid = Val 974, thumbnail = or_null Undefined \<rparr>,
     triedTopics = Undefined, errorSummary = Undefined \<rparr>"
  let ?a = "\<lparr> hasContent = True, difficulty = Intermediate, keyPoints = take 2 ada_sentences,
     advisory = lit ''These points are based on an initial Wikipedia summary; always cross-check for critical or specific decisions.'' \<rparr>"
  have key: "extractTopic rt ?q = lit ''Ada_Lovelace''"
    using extractTopic_ascii[OF assms(1)] ada_query by simp
  have r: "ResearchAgent_run rt (\<lambda>url'. Inr (Val (ada_body ?s))) ?q = ?r"
    by (simp add: ResearchAgent_run_def Let_def key ada_body_def
        fetch_documented_body[OF ada_key])
  have s: "?s \<noteq> []" by (simp add: ada_sentences_def lit_def)
  have kp: "extractKeyPoints ?s 5 = take 2 ada_sentences"
    using s by (simp add: extractKeyPoints_def ada_summary_key_points)
  have "toLowerCase rt ?s = toLowerCase ascii_runtime ?s"
    using assms(1) ada_summary_shape by (simp add: conform_lower)
  then have d: "inferDifficulty rt ?s = Intermediate"
    using ada_summary_difficulty by (simp add: inferDifficulty_def)
  have a: "AnalysisAgent_run rt ?r = ?a"
proof -
    have "take 2 ada_sentences \<noteq> []" by (simp add: ada_sentences_def)
    with s show ?thesis by (simp add: AnalysisAgent_run_def Let_def kp d)
  qed
  have m: "classifyIntent rt ?q True = Overview"
    using classifyIntent_ascii[OF assms(1)] ada_query by simp
  have t: "TaskAgent_run rt ?q ?r ?a =
             \<lparr> mode = Overview, finalAnswer = generateAnswer rt ?r ?a Overview \<rparr>"
    by (simp add: TaskAgent_run_def Let_def m)
  have resp: "resp = \<lparr> error_r = Undefined, errorMessage = Undefined,
      query_r = Val ?q, timestamp = Val now, research = Val ?r,
      analysis = Val ?a, task = Overview, finalAnswer_r = generateAnswer rt ?r ?a Overview \<rparr>"
    unfolding assms(2) CoordinatorAgent_orchestrate_def orchestrate_def
    by (simp add: r a t Let_def)
  obtain rest where "generateAnswer rt ?r ?a Overview = heading (lit ''Ada Lovelace'') @ rest"
    using generateAnswer_heading[of rt ?r ?a Overview] by auto
  then have "generateAnswer rt ?r ?a Overview =
      (lit ''## '' @ BOOKS @ lit '' Ada Lovelace'') @ NL @ NL @ rest"
    by (simp add: heading_def lit_def)
  then have h: "sublist (lit ''## '' @ BOOKS @ lit '' Ada Lovelace'')
      (generateAnswer rt ?r ?a Overview)"
    by (simp only: sublist_append_rightI)
  have l: "sublist ?u (generateAnswer rt ?r ?a Overview)"
    using generateAnswer_url[of ?r rt ?a Overview] by simp
  have "length (take 2 ada_sentences) = 2" by (simp add: ada_sentences_def)
  then show ?thesis
    unfolding resp using h l by (simp add: str_includes_sublist)
qed

text \<open>Claim C9 at that summary, with the case conversions of ASCII.\<close>

theorem ada_lovelace_two_key_points_witness:
  "ascii_conform ascii_runtime \<and>
   length ada_sentences = 3 \<and>
   list_all (\<lambda>x. is_terminator (last x) \<and> list_all (\<lambda>c. \<not> is_terminator c) (butlast x) \<and>
                 20 < length x) ada_sentences \<and>
   list_all (\<lambda>w. \<not> str_includes (toLowerCase ascii_runtime (join (lit '' '') ada_sentences)) w)
     (ADVANCED_WORDS @ BEGINNER_WORDS) \<and>
   task (CoordinatorAgent_orchestrate ascii_runtime
           (\<lambda>url'. Inr (Val (ada_body (join (lit '' '') ada_sentences))))
           (lit ''2026-01-01T00:00:00.000Z'') (lit ''who is Ada Lovelace'')) = Overview \<and>
   (\<exists>a. analysis (CoordinatorAgent_orchestrate ascii_runtime
           (\<lambda>url'. Inr (Val (ada_body (join (lit '' '') ada_sentences))))
           (lit ''2026-01-01T00:00:00.000Z'') (lit ''who is Ada Lovelace'')) = Val a \<and>
        difficulty a = Intermediate \<and> keyPoints a = take 2 ada_sentences \<and>
        length (keyPoints a) = 2) \<and>
   str_includes (finalAnswer_r (CoordinatorAgent_orchestrate ascii_runtime
           (\<lambda>url'. Inr (Val (ada_body (join (lit '' '') ada_sentences))))
           (lit ''2026-01-01T00:00:00.000Z'') (lit ''who is Ada Lovelace'')))
     (lit ''## '' @ BOOKS @ lit '' Ada Lovelace'') \<and>
   str_includes (finalAnswer_r (CoordinatorAgent_orchestrate ascii_runtime
           (\<lambda>url'. Inr (Val (ada_body (join (lit '' '') ada_sentences))))
           (lit ''2026-01-01T00:00:00.000Z'') (lit ''who is Ada Lovelace'')))
     (lit ''https://en.wikipedia.org/wiki/Ada_Lovelace'')"
  using ada_lovelace_two_key_points[OF ascii_conform_ascii refl]
    ascii_conform_ascii ada_summary_shape ada_summary_vocabulary
  by blast

end
